theory Spec2Isabelle
  imports Main
begin

section \<open>JavaScript values and text helpers\<close>

text \<open>
  Strings are lists of code units below 256; every literal of the sources is ASCII.
  A value that may be \<open>undefined\<close> or \<open>null\<close> is an option; JavaScript's truthiness
  of such a value is \<open>truthy\<close>: present and not the empty string.
\<close>

fun truthy :: "string option \<Rightarrow> bool" where
  "truthy None = False"
| "truthy (Some s) = (s \<noteq> [])"

text \<open>\<open>a || b\<close> on two possibly absent strings.\<close>

definition js_or :: "string option \<Rightarrow> string option \<Rightarrow> string option" where
  "js_or a b = (if truthy a then a else b)"

text \<open>
  \<open>Array.prototype.slice(start, end)\<close> with its negative indices counted from the end
  and both bounds clamped into the array.
\<close>

definition clamp_index :: "int \<Rightarrow> nat \<Rightarrow> nat" where
  "clamp_index i n = (if i < 0 then nat (max (int n + i) 0) else min (nat i) n)"

definition js_slice :: "int \<Rightarrow> int \<Rightarrow> 'a list \<Rightarrow> 'a list" where
  "js_slice start stop xs =
     (let n = length xs; s = clamp_index start n; e = clamp_index stop n
      in take (e - s) (drop s xs))"

text \<open>\<open>slice(start)\<close>: the end defaults to the length.\<close>

definition js_slice_from :: "int \<Rightarrow> 'a list \<Rightarrow> 'a list" where
  "js_slice_from start xs = drop (clamp_index start (length xs)) xs"

text \<open>A promise settles: it rejects with a message or resolves with a value.\<close>

datatype 'a outcome = Throws string | Returns 'a

text \<open>
  \<open>String.prototype.startsWith\<close> and \<open>includes\<close> (here \<open>includes_str\<close>), and
  \<open>toLowerCase\<close> on code units below 256 (the basic Latin letters and the Latin-1
  capitals, the multiplication sign excepted).
\<close>

fun startsWith :: "string \<Rightarrow> string \<Rightarrow> bool" where
  "startsWith s [] = True"
| "startsWith [] (p # ps) = False"
| "startsWith (c # cs) (p # ps) = (c = p \<and> startsWith cs ps)"

fun includes_str :: "string \<Rightarrow> string \<Rightarrow> bool" where
  "includes_str [] needle = (needle = [])"
| "includes_str (c # cs) needle = (startsWith (c # cs) needle \<or> includes_str cs needle)"

definition lower_char :: "char \<Rightarrow> char" where
  "lower_char c =
     (let n = (of_char c :: nat)
      in if (65 \<le> n \<and> n \<le> 90) \<or> (192 \<le> n \<and> n \<le> 222 \<and> n \<noteq> 215)
         then char_of (n + 32) else c)"

definition toLowerCase :: "string \<Rightarrow> string" where
  "toLowerCase s = map lower_char s"

section \<open>state.js: event bus, persisted store, jobs\<close>

datatype job_status = Running | Completed | Failed

record job =
  job_id :: nat
  name :: string
  status :: job_status
  workspaceId :: "string option"
  workflowId :: "string option"
  runId :: "string option"
  isLive :: bool
  startedAt :: int
  completedAt :: "int option"
  docId :: "string option"
  statusText :: string

text \<open>The \<open>updates\<close> object of \<open>updateJob\<close>: the properties it carries are assigned.\<close>

record job_updates =
  set_status :: "job_status option"
  set_completedAt :: "int option"
  set_statusText :: "string option"

definition assign :: "job_updates \<Rightarrow> job \<Rightarrow> job" where
  "assign u j =
     j\<lparr>status := (case set_status u of None \<Rightarrow> status j | Some v \<Rightarrow> v),
       completedAt := (case set_completedAt u of None \<Rightarrow> completedAt j | Some v \<Rightarrow> Some v),
       statusText := (case set_statusText u of None \<Rightarrow> statusText j | Some v \<Rightarrow> v)\<rparr>"

text \<open>What \<open>events.emit\<close> publishes, by topic, and the requests sent to the service.\<close>

datatype bus_event =
    JobsChanged "job list"
  | DocumentsChanged "string list"
  | WorkspaceMembers string "string list"
  | ResearchCompleted nat
  | ChatUserMessage string string
  | ChatThinking string
  | ChatResponse string string
  | ChatError string string

datatype net_call =
    AuthExchange
  | LoadAllObjects
  | GetCollectionMembers string
  | GetRunStatus string string
  | OpenStream string string
  | ExecuteResearch string

text \<open>
  The closure of one \<open>pollForCompletion\<close> call: its counter, its interval, and how
  many of its status requests are awaiting their reply. The interval's callback is
  asynchronous, so the interval may fire again while earlier requests are in flight.
\<close>

record poller =
  poll_workflowId :: string
  poll_runId :: string
  attempts :: nat
  interval :: bool
  in_flight :: nat

text \<open>
  The application state: the fields of \<open>state\<close> the job lifecycle touches, the log of
  writes to the persisted store under the jobs key, the log of emitted events, the log
  of requests, the job counter, the pollers by job id and the pending \<open>setTimeout\<close>
  calls as (delay in ms, job id).
\<close>

record app_state =
  liveMode :: bool
  api :: bool
  allDocuments :: "string list"
  collectionMembers :: "string \<rightharpoonup> string list"
  jobs :: "job list"
  store_writes :: "job list list"
  emitted :: "bus_event list"
  network :: "net_call list"
  nextJobId :: nat
  pollers :: "nat \<rightharpoonup> poller"
  timeouts :: "(nat \<times> nat) list"

definition emit :: "bus_event \<Rightarrow> app_state \<Rightarrow> app_state" where
  "emit e st = st\<lparr>emitted := emitted st @ [e]\<rparr>"

definition saveJobs :: "app_state \<Rightarrow> app_state" where
  "saveJobs st = st\<lparr>store_writes := store_writes st @ [jobs st]\<rparr>"

definition setDocuments :: "string list \<Rightarrow> app_state \<Rightarrow> app_state" where
  "setDocuments docs st = emit (DocumentsChanged docs) (st\<lparr>allDocuments := docs\<rparr>)"

definition setCollectionMembers :: "string \<Rightarrow> string list \<Rightarrow> app_state \<Rightarrow> app_state" where
  "setCollectionMembers wsId memberIds st =
     emit (WorkspaceMembers wsId memberIds)
       (st\<lparr>collectionMembers := (collectionMembers st)(wsId \<mapsto> memberIds)\<rparr>)"

definition addJob :: "job \<Rightarrow> app_state \<Rightarrow> app_state" where
  "addJob j st =
     (let st1 = saveJobs (st\<lparr>jobs := j # jobs st\<rparr>) in emit (JobsChanged (jobs st1)) st1)"

text \<open>\<open>Object.assign\<close> on the object that \<open>find\<close> returned: the first match.\<close>

fun assign_first :: "nat \<Rightarrow> job_updates \<Rightarrow> job list \<Rightarrow> job list" where
  "assign_first jobId u [] = []"
| "assign_first jobId u (j # js) =
     (if job_id j = jobId then assign u j # js else j # assign_first jobId u js)"

definition updateJob :: "nat \<Rightarrow> job_updates \<Rightarrow> app_state \<Rightarrow> app_state" where
  "updateJob jobId updates st =
     (case find (\<lambda>j. job_id j = jobId) (jobs st) of
        None \<Rightarrow> st
      | Some j \<Rightarrow>
          (let st1 = saveJobs (st\<lparr>jobs := assign_first jobId updates (jobs st)\<rparr>)
           in emit (JobsChanged (jobs st1)) st1))"

definition removeJob :: "nat \<Rightarrow> app_state \<Rightarrow> app_state" where
  "removeJob jobId st =
     (let st1 = saveJobs (st\<lparr>jobs := filter (\<lambda>j. job_id j \<noteq> jobId) (jobs st)\<rparr>)
      in emit (JobsChanged (jobs st1)) st1)"

section \<open>research.js: the job lifecycle\<close>

text \<open>The three buckets of \<open>bucketStatus\<close>; \<open>None\<close> is its \<open>null\<close>.\<close>

definition bucketStatus :: "string \<Rightarrow> string option" where
  "bucketStatus message =
     (let msg = toLowerCase message
      in if includes_str msg ''search'' \<or> includes_str msg ''finding'' \<or> includes_str msg ''looking''
         then Some ''Researching...''
         else if includes_str msg ''writ'' \<or> includes_str msg ''compil'' \<or>
                 includes_str msg ''generat'' \<or> includes_str msg ''upload''
         then Some ''Finalizing...''
         else if includes_str msg ''start'' \<or> includes_str msg ''initializ'' \<or>
                 includes_str msg ''plan''
         then Some ''Starting...''
         else None)"

text \<open>
  What the service answers while a job completes: the ids of the objects that have a
  content source (what \<open>loadAllObjects\<close>, the filter and \<open>mapDoc\<close> leave), and the
  member ids of a collection. Either request may reject.
\<close>

record remote =
  objects_reply :: "string list outcome"
  members_reply :: "string \<Rightarrow> string list outcome"

text \<open>
  The reload inside \<open>completeJob\<close>'s \<open>try\<close>: a rejection is caught and logged, and what
  was done before it stays done.
\<close>

definition reload :: "nat \<Rightarrow> remote \<Rightarrow> app_state \<Rightarrow> app_state" where
  "reload jobId env st =
     (let st1 = st\<lparr>network := network st @ [LoadAllObjects]\<rparr>
      in case objects_reply env of
           Throws e \<Rightarrow> st1
         | Returns docs \<Rightarrow>
             (let st2 = setDocuments docs st1
              in case find (\<lambda>j. job_id j = jobId) (jobs st2) of
                   None \<Rightarrow> st2
                 | Some j \<Rightarrow>
                     (if truthy (workspaceId j)
                      then (let ws = the (workspaceId j);
                                st3 = st2\<lparr>network := network st2 @ [GetCollectionMembers ws]\<rparr>
                            in case members_reply env ws of
                                 Throws e \<Rightarrow> st3
                               | Returns ms \<Rightarrow> setCollectionMembers ws ms st3)
                      else st2)))"

text \<open>
  \<open>completeJob\<close>, run to its end: the update, the reload when \<open>state.api\<close> is set, the
  notification. It reads no status before it writes.
\<close>

definition completeJob :: "nat \<Rightarrow> int \<Rightarrow> remote \<Rightarrow> app_state \<Rightarrow> app_state" where
  "completeJob jobId now env st =
     (let st1 = updateJob jobId
                  \<lparr>set_status = Some Completed, set_completedAt = Some now,
                   set_statusText = Some ''Complete''\<rparr> st;
          st2 = (if api st1 then reload jobId env st1 else st1)
      in emit (ResearchCompleted jobId) st2)"

text \<open>
  \<open>pollForCompletion\<close> up to its first suspension: the stream is opened for the job and
  the 5 s interval is set with a fresh counter. With no \<open>state.api\<close> the stream call
  throws inside its \<open>try\<close> and nothing is sent.
\<close>

definition pollForCompletion :: "nat \<Rightarrow> string \<Rightarrow> string \<Rightarrow> app_state \<Rightarrow> app_state" where
  "pollForCompletion jobId wfId rId st =
     (let st1 = (if api st then st\<lparr>network := network st @ [OpenStream wfId rId]\<rparr> else st)
      in st1\<lparr>pollers := (pollers st1)(jobId \<mapsto>
              \<lparr>poll_workflowId = wfId, poll_runId = rId, attempts = 0, interval = True,
               in_flight = 0\<rparr>)\<rparr>)"

definition null_if_falsy :: "string option \<Rightarrow> string option" where
  "null_if_falsy v = (if truthy v then v else None)"

definition createJob ::
  "string \<Rightarrow> string option \<Rightarrow> string option \<Rightarrow> string option \<Rightarrow> bool \<Rightarrow> int \<Rightarrow> app_state
     \<Rightarrow> nat \<times> app_state" where
  "createJob nm wsId wfId rId live now st =
     (let n = nextJobId st + 1;
          j = \<lparr>job_id = n, name = nm, status = Running, workspaceId = null_if_falsy wsId,
               workflowId = null_if_falsy wfId, runId = null_if_falsy rId, isLive = live,
               startedAt = now, completedAt = None, docId = None,
               statusText = ''Starting...''\<rparr>;
          st1 = addJob j (st\<lparr>nextJobId := n\<rparr>)
      in if live \<and> truthy wfId \<and> truthy rId
         then (n, pollForCompletion n (the wfId) (the rId) st1)
         else if \<not> live then (n, st1\<lparr>timeouts := timeouts st1 @ [(8000, n)]\<rparr>)
         else (n, st1))"

text \<open>The reply of the run-status endpoint, as far as the client reads it.\<close>

record run_reply =
  run_status :: "string option"
  result_status :: "string option"
  result_message :: "string option"

text \<open>
  One firing of the poller's interval, up to the \<open>await\<close>: the counter is incremented
  and tested against the cap, then the status request is sent. A cleared interval does
  not fire. Without \<open>state.api\<close> the request throws inside the \<open>try\<close> and nothing is
  sent.
\<close>

definition poll_fire :: "nat \<Rightarrow> app_state \<Rightarrow> app_state" where
  "poll_fire jobId st =
     (case pollers st jobId of
        None \<Rightarrow> st
      | Some p \<Rightarrow>
          if \<not> interval p then st
          else
            (let p1 = p\<lparr>attempts := attempts p + 1\<rparr>
             in if attempts p1 > 120
                then updateJob jobId
                       \<lparr>set_status = Some Failed, set_completedAt = None,
                        set_statusText = Some ''Timed out''\<rparr>
                       (st\<lparr>pollers := (pollers st)(jobId \<mapsto> p1\<lparr>interval := False\<rparr>)\<rparr>)
                else if \<not> api st then st\<lparr>pollers := (pollers st)(jobId \<mapsto> p1)\<rparr>
                else st\<lparr>pollers := (pollers st)(jobId \<mapsto> p1\<lparr>in_flight := in_flight p1 + 1\<rparr>),
                        network := network st @
                          [GetRunStatus (poll_workflowId p) (poll_runId p)]\<rparr>))"

text \<open>
  One status request of the poller settles and the callback resumes after its \<open>await\<close>,
  whether or not the interval has been cleared in the meantime. A settlement with no
  request in flight does not happen.
\<close>

definition poll_settle :: "nat \<Rightarrow> run_reply outcome \<Rightarrow> int \<Rightarrow> remote \<Rightarrow> app_state \<Rightarrow> app_state" where
  "poll_settle jobId reply now env st =
     (case pollers st jobId of
        None \<Rightarrow> st
      | Some p \<Rightarrow>
          if in_flight p = 0 then st
          else
            (let p1 = p\<lparr>in_flight := in_flight p - 1\<rparr>;
                 st1 = st\<lparr>pollers := (pollers st)(jobId \<mapsto> p1)\<rparr>;
                 cleared = st\<lparr>pollers := (pollers st)(jobId \<mapsto> p1\<lparr>interval := False\<rparr>)\<rparr>
             in case reply of
                  Throws e \<Rightarrow> st1
                | Returns r \<Rightarrow>
                    (let verdict = js_or (run_status r) (result_status r)
                     in if verdict = Some ''completed'' \<or> verdict = Some ''succeeded''
                        then completeJob jobId now env cleared
                        else if verdict = Some ''failed'' \<or> verdict = Some ''error''
                        then updateJob jobId
                               \<lparr>set_status = Some Failed, set_completedAt = None,
                                set_statusText = Some ''Research failed''\<rparr> cleared
                        else st1)))"

text \<open>A decoded stream event, and the callback \<open>streamJobStatus\<close> hands to the stream.\<close>

record stream_event =
  ev_type :: string
  ev_message :: "string option"

definition on_job_event :: "nat \<Rightarrow> stream_event \<Rightarrow> int \<Rightarrow> remote \<Rightarrow> app_state \<Rightarrow> app_state" where
  "on_job_event jobId data now env st =
     (let st1 = (if ev_type data = ''update'' \<and> truthy (ev_message data)
                 then (case bucketStatus (the (ev_message data)) of
                         None \<Rightarrow> st
                       | Some bucket \<Rightarrow>
                           updateJob jobId
                             \<lparr>set_status = None, set_completedAt = None,
                              set_statusText = Some bucket\<rparr> st)
                 else st)
      in if ev_type data = ''answer'' then completeJob jobId now env st1 else st1)"

text \<open>The demo timer of a job fires, once, if it was set.\<close>

definition timeout_fires :: "nat \<Rightarrow> int \<Rightarrow> remote \<Rightarrow> app_state \<Rightarrow> app_state" where
  "timeout_fires jobId now env st =
     (if (8000, jobId) \<in> set (timeouts st)
      then completeJob jobId now env (st\<lparr>timeouts := remove1 (8000, jobId) (timeouts st)\<rparr>)
      else st)"

text \<open>
  What can happen to the jobs after creation, each with the clock reading at which it
  happens: a poller's interval fires, one of its status requests settles, a stream
  delivers an event, a demo timer fires.
\<close>

datatype signal =
    IntervalFires nat
  | StatusSettles nat "run_reply outcome"
  | StreamEvent nat stream_event
  | TimeoutFires nat

fun step :: "remote \<Rightarrow> int \<times> signal \<Rightarrow> app_state \<Rightarrow> app_state" where
  "step env (now, IntervalFires jobId) st = poll_fire jobId st"
| "step env (now, StatusSettles jobId reply) st = poll_settle jobId reply now env st"
| "step env (now, StreamEvent jobId data) st = on_job_event jobId data now env st"
| "step env (now, TimeoutFires jobId) st = timeout_fires jobId now env st"

fun run_signals :: "remote \<Rightarrow> (int \<times> signal) list \<Rightarrow> app_state \<Rightarrow> app_state" where
  "run_signals env [] st = st"
| "run_signals env (s # ss) st = run_signals env ss (step env s st)"

text \<open>Observations on a state: a job by id, and how often completion ran for it.\<close>

definition job_of :: "nat \<Rightarrow> app_state \<Rightarrow> job option" where
  "job_of jobId st = find (\<lambda>j. job_id j = jobId) (jobs st)"

definition completions :: "nat \<Rightarrow> app_state \<Rightarrow> nat" where
  "completions jobId st = length (filter (\<lambda>e. e = ResearchCompleted jobId) (emitted st))"

definition reloads :: "app_state \<Rightarrow> nat" where
  "reloads st = length (filter (\<lambda>c. c = LoadAllObjects) (network st))"

definition is_answer :: "nat \<Rightarrow> int \<times> signal \<Rightarrow> bool" where
  "is_answer jobId s =
     (case snd s of StreamEvent j data \<Rightarrow> j = jobId \<and> ev_type data = ''answer'' | _ \<Rightarrow> False)"

definition answers :: "nat \<Rightarrow> (int \<times> signal) list \<Rightarrow> nat" where
  "answers jobId tr = length (filter (is_answer jobId) tr)"

text \<open>
  A status reply on which the poller completes the job; how many of them a sequence of
  signals holds for a job; and how often completion ran, for any job.
\<close>

definition reports_success :: "run_reply outcome \<Rightarrow> bool" where
  "reports_success reply =
     (case reply of
        Throws e \<Rightarrow> False
      | Returns r \<Rightarrow>
          (let verdict = js_or (run_status r) (result_status r)
           in verdict = Some ''completed'' \<or> verdict = Some ''succeeded''))"

definition is_success :: "nat \<Rightarrow> int \<times> signal \<Rightarrow> bool" where
  "is_success jobId s =
     (case snd s of StatusSettles j reply \<Rightarrow> j = jobId \<and> reports_success reply | _ \<Rightarrow> False)"

definition successes :: "nat \<Rightarrow> (int \<times> signal) list \<Rightarrow> nat" where
  "successes jobId tr = length (filter (is_success jobId) tr)"

definition is_completion :: "bus_event \<Rightarrow> bool" where
  "is_completion e = (case e of ResearchCompleted j \<Rightarrow> True | _ \<Rightarrow> False)"

definition all_completions :: "app_state \<Rightarrow> nat" where
  "all_completions st = length (filter is_completion (emitted st))"

text \<open>
  Whether the interval of a job's poller is still set, and how many demo timers are
  pending for a job.
\<close>

definition armed :: "nat \<Rightarrow> app_state \<Rightarrow> bool" where
  "armed jobId st = (case pollers st jobId of None \<Rightarrow> False | Some p \<Rightarrow> interval p)"

definition pending :: "nat \<Rightarrow> app_state \<Rightarrow> nat" where
  "pending jobId st = count_list (timeouts st) (8000, jobId)"

text \<open>The status and the progress label of a job, by id.\<close>

definition status_of :: "nat \<Rightarrow> app_state \<Rightarrow> job_status option" where
  "status_of jobId st = map_option status (job_of jobId st)"

definition statusText_of :: "nat \<Rightarrow> app_state \<Rightarrow> string option" where
  "statusText_of jobId st = map_option statusText (job_of jobId st)"

text \<open>
  A status reply that ends nothing: the request rejected, or the status is none of the
  four the poller acts on. A signal is quiet for a job when it cannot end it: no
  \<open>answer\<close> event, no terminal reply, no demo timer of that job.
\<close>

definition non_terminal :: "run_reply outcome \<Rightarrow> bool" where
  "non_terminal reply =
     (case reply of
        Throws e \<Rightarrow> True
      | Returns r \<Rightarrow>
          (let verdict = js_or (run_status r) (result_status r)
           in verdict \<noteq> Some ''completed'' \<and> verdict \<noteq> Some ''succeeded'' \<and>
              verdict \<noteq> Some ''failed'' \<and> verdict \<noteq> Some ''error''))"

fun quiet :: "nat \<Rightarrow> int \<times> signal \<Rightarrow> bool" where
  "quiet jobId (now, IntervalFires j) = True"
| "quiet jobId (now, StatusSettles j reply) = (j \<noteq> jobId \<or> non_terminal reply)"
| "quiet jobId (now, StreamEvent j data) = (j \<noteq> jobId \<or> ev_type data \<noteq> ''answer'')"
| "quiet jobId (now, TimeoutFires j) = (j \<noteq> jobId)"

fun is_tick :: "nat \<Rightarrow> int \<times> signal \<Rightarrow> bool" where
  "is_tick jobId (now, IntervalFires j) = (j = jobId)"
| "is_tick jobId (now, StatusSettles j reply) = False"
| "is_tick jobId (now, StreamEvent j data) = False"
| "is_tick jobId (now, TimeoutFires j) = False"

definition ticks :: "nat \<Rightarrow> (int \<times> signal) list \<Rightarrow> nat" where
  "ticks jobId tr = length (filter (is_tick jobId) tr)"

text \<open>The attempts counted so far by a job's poller.\<close>

definition attempts_of :: "nat \<Rightarrow> app_state \<Rightarrow> nat option" where
  "attempts_of jobId st = map_option attempts (pollers st jobId)"

text \<open>
  The requests of the reload in \<open>completeJob\<close> for a job with the given workspace: the
  object listing, then, when the listing succeeds and the job has a workspace, the
  members of that workspace.
\<close>

definition reload_requests :: "string option \<Rightarrow> remote \<Rightarrow> net_call list" where
  "reload_requests ws env =
     LoadAllObjects #
       (case objects_reply env of
          Throws e \<Rightarrow> []
        | Returns docs \<Rightarrow> if truthy ws then [GetCollectionMembers (the ws)] else [])"

text \<open>
  From one state to a later one: \<open>state.api\<close> is as it was, and the \<open>loadAllObjects\<close>
  requests have grown by as many as the \<open>research:completed\<close> emissions when it is
  set, and by none when it is not.
\<close>

definition reload_per_completion :: "app_state \<Rightarrow> app_state \<Rightarrow> bool" where
  "reload_per_completion st st' =
     (api st' = api st
      \<and> (if api st then reloads st' + all_completions st = reloads st + all_completions st'
          else reloads st' = reloads st))"

text \<open>
  Example states: the application as loaded with an empty store, the same with an API
  client in live mode, a remote that answers every reload, and a live job created in
  the connected state.
\<close>

definition initial_state :: app_state where
  "initial_state =
     \<lparr>liveMode = False, api = False, allDocuments = [], collectionMembers = Map.empty,
      jobs = [], store_writes = [], emitted = [], network = [], nextJobId = 0,
      pollers = Map.empty, timeouts = []\<rparr>"

definition connected_state :: app_state where
  "connected_state = initial_state\<lparr>liveMode := True, api := True\<rparr>"

text \<open>The application in demo mode while an API client is configured.\<close>

definition offline_with_client :: app_state where
  "offline_with_client = initial_state\<lparr>api := True\<rparr>"

definition example_remote :: remote where
  "example_remote = \<lparr>objects_reply = Returns [''doc-1''], members_reply = (\<lambda>ws. Returns [''doc-1''])\<rparr>"

definition answer_event :: stream_event where
  "answer_event = \<lparr>ev_type = ''answer'', ev_message = Some ''done''\<rparr>"

definition reply_with :: "string \<Rightarrow> run_reply outcome" where
  "reply_with s = Returns \<lparr>run_status = Some s, result_status = None, result_message = None\<rparr>"

definition live_job_state :: app_state where
  "live_job_state =
     snd (createJob ''Valuation Analysis'' None (Some ''wf-1'') (Some ''run-1'') True 0 connected_state)"

definition succeeded_after_answer :: "(int \<times> signal) list" where
  "succeeded_after_answer =
     [(1, StreamEvent 1 answer_event), (5000, IntervalFires 1),
      (5200, StatusSettles 1 (reply_with ''succeeded''))]"

definition answer_after_succeeded :: "(int \<times> signal) list" where
  "answer_after_succeeded =
     [(5000, IntervalFires 1), (5200, StatusSettles 1 (reply_with ''succeeded'')),
      (5300, StreamEvent 1 answer_event)]"

text \<open>
  Two firings before the first reply arrives, then both replies report \<open>succeeded\<close>.
\<close>

definition overlapping_polls :: "(int \<times> signal) list" where
  "overlapping_polls =
     [(5000, IntervalFires 1), (10000, IntervalFires 1),
      (10100, StatusSettles 1 (reply_with ''succeeded'')),
      (10200, StatusSettles 1 (reply_with ''succeeded''))]"

text \<open>
  120 firings of the interval, each answered at once with the status \<open>running\<close>.
\<close>

definition still_running :: "(int \<times> signal) list" where
  "still_running =
     concat (replicate 120 [(0, IntervalFires 1), (0, StatusSettles 1 (reply_with ''running''))])"

text \<open>
  An \<open>answer\<close> event, then 121 firings of the interval with the service still
  reporting \<open>running\<close>.
\<close>

definition answer_then_silence :: "(int \<times> signal) list" where
  "answer_then_silence =
     (1, StreamEvent 1 answer_event) # still_running @ [(600000, IntervalFires 1)]"

definition fail_update :: job_updates where
  "fail_update =
     \<lparr>set_status = Some Failed, set_completedAt = None, set_statusText = Some ''Timed out''\<rparr>"

definition live_poller :: poller where
  "live_poller =
     \<lparr>poll_workflowId = ''wf-1'', poll_runId = ''run-1'', attempts = 0, interval = True,
      in_flight = 0\<rparr>"

text \<open>
  A remote whose object listing rejects, and a demo job tied to a workspace, created
  while an API client is configured.
\<close>

definition failing_remote :: remote where
  "failing_remote =
     \<lparr>objects_reply = Throws ''API 500: /objects?limit=1000'',
      members_reply = (\<lambda>ws. Returns [''doc-1''])\<rparr>"

definition demo_job_in_workspace :: app_state where
  "demo_job_in_workspace =
     snd (createJob ''Valuation Analysis'' (Some ''w1'') None None False 0 offline_with_client)"

section \<open>chat.js: conversation histories\<close>

datatype role = User | Assistant

record chat_message =
  role :: role
  content :: string
  time :: int

type_synonym histories = "string \<rightharpoonup> chat_message list"

definition getHistory :: "histories \<Rightarrow> string \<Rightarrow> chat_message list" where
  "getHistory h contextKey = (case h contextKey of None \<Rightarrow> [] | Some ms \<Rightarrow> ms)"

text \<open>
  \<open>addMessage\<close> creates the history on first use, pushes the message stamped with the
  clock reading \<open>now\<close>, and keeps \<open>slice(-20)\<close> once the length exceeds 20.
\<close>

definition addMessage :: "string \<Rightarrow> role \<Rightarrow> string \<Rightarrow> int \<Rightarrow> histories \<Rightarrow> histories" where
  "addMessage contextKey r c now h =
     (let h1 = (if h contextKey = None then h(contextKey \<mapsto> []) else h);
          pushed = getHistory h1 contextKey @ [\<lparr>role = r, content = c, time = now\<rparr>];
          h2 = h1(contextKey \<mapsto> pushed)
      in if length pushed > 20 then h2(contextKey \<mapsto> js_slice_from (- 20) pushed) else h2)"

definition clearHistory :: "string \<Rightarrow> histories \<Rightarrow> histories" where
  "clearHistory contextKey h = h(contextKey := None)"

text \<open>A sequence of \<open>addMessage\<close> calls, each with its key, role, content and clock.\<close>

type_synonym add_call = "string \<times> role \<times> string \<times> int"

fun addMessages :: "add_call list \<Rightarrow> histories \<Rightarrow> histories" where
  "addMessages [] h = h"
| "addMessages ((k, r, c, t) # calls) h = addMessages calls (addMessage k r c t h)"

text \<open>The messages a sequence of calls sends to one context, in call order.\<close>

fun sent_to :: "string \<Rightarrow> add_call list \<Rightarrow> chat_message list" where
  "sent_to k [] = []"
| "sent_to k ((k', r, c, t) # calls) =
     (if k' = k then \<lparr>role = r, content = c, time = t\<rparr> # sent_to k calls else sent_to k calls)"

text \<open>The \<open>n\<close> most recent entries of a sequence, in their original order.\<close>

definition most_recent :: "nat \<Rightarrow> 'a list \<Rightarrow> 'a list" where
  "most_recent n xs = drop (length xs - n) xs"

section \<open>api.js: the credential cache\<close>

text \<open>
  The fields of \<open>VertesiaAPI\<close> and the body of the credential endpoint's answer, of
  which the client accepts \<open>token\<close>, \<open>jwt\<close> or \<open>access_token\<close>.
\<close>

record vertesia_api =
  apiKey :: string
  envId :: string
  jwt :: "string option"
  jwtExpiry :: int

record auth_data =
  data_token :: "string option"
  data_jwt :: "string option"
  data_access_token :: "string option"

definition issued :: "auth_data \<Rightarrow> string option" where
  "issued d = js_or (js_or (data_token d) (data_jwt d)) (data_access_token d)"

text \<open>
  How the credential exchange settles: the request rejects, or a response arrives with
  its \<open>ok\<close> flag and the outcome of decoding its body.
\<close>

datatype auth_reply = AuthRejects string | AuthResponse bool "auth_data outcome"

text \<open>
  \<open>getAuthToken\<close> with the clock reading \<open>now\<close> of its test, the settlement of the
  exchange (used only when the cache is not reused) and the clock reading \<open>later\<close> at
  which the new expiry is computed. It returns the outcome, the cache and the requests
  it sent.
\<close>

definition getAuthToken ::
  "int \<Rightarrow> auth_reply \<Rightarrow> int \<Rightarrow> vertesia_api
     \<Rightarrow> string option outcome \<times> vertesia_api \<times> net_call list" where
  "getAuthToken now reply later a =
     (if truthy (jwt a) \<and> now < jwtExpiry a - 60000 then (Returns (jwt a), a, [])
      else case reply of
             AuthRejects e \<Rightarrow> (Throws e, a, [AuthExchange])
           | AuthResponse ok body \<Rightarrow>
               if \<not> ok then (Throws ''Auth failed'', a, [AuthExchange])
               else (case body of
                       Throws e \<Rightarrow> (Throws e, a, [AuthExchange])
                     | Returns d \<Rightarrow>
                         (Returns (issued d),
                          a\<lparr>jwt := issued d, jwtExpiry := later + 3500000\<rparr>,
                          [AuthExchange])))"

section \<open>api.js: the stream decoder\<close>

definition newline :: char where
  "newline = CHR 0x0A"

text \<open>
  The white space of \<open>trim\<close> and of \<open>\s\<close> among the code units below 256: tab, line
  feed, vertical tab, form feed, carriage return, space and no-break space.
\<close>

definition is_space :: "char \<Rightarrow> bool" where
  "is_space c = ((of_char c :: nat) \<in> {9, 10, 11, 12, 13, 32, 160})"

definition js_trim :: "string \<Rightarrow> string" where
  "js_trim s = rev (dropWhile is_space (rev (dropWhile is_space s)))"

text \<open>
  \<open>split('\n')\<close>, scanning with the current segment: the result is never empty, and its
  last element is the text after the last line feed.
\<close>

fun split_from :: "string \<Rightarrow> string \<Rightarrow> string list" where
  "split_from cur [] = [cur]"
| "split_from cur (c # cs) =
     (if c = newline then cur # split_from [] cs else split_from (cur @ [c]) cs)"

definition split_nl :: "string \<Rightarrow> string list" where
  "split_nl s = split_from [] s"

text \<open>
  The body of the \<open>for\<close> loop on one line: nothing without the \<open>data:\<close> prefix, nothing
  when \<open>JSON.parse\<close> throws (\<open>parse\<close> gives \<open>None\<close>), otherwise one call of \<open>onEvent\<close>.
  The calls are collected in order.
\<close>

definition on_line :: "(string \<Rightarrow> 'e option) \<Rightarrow> string \<Rightarrow> 'e list" where
  "on_line parse line =
     (if \<not> startsWith line ''data:'' then []
      else case parse (js_trim (drop 5 line)) of None \<Rightarrow> [] | Some d \<Rightarrow> [d])"

text \<open>
  The \<open>while\<close> loop over the chunks the reader yields before it reports \<open>done\<close>, with the
  carry-over buffer.
\<close>

fun read_loop :: "(string \<Rightarrow> 'e option) \<Rightarrow> string \<Rightarrow> string list \<Rightarrow> 'e list" where
  "read_loop parse buffer [] = []"
| "read_loop parse buffer (chunk # chunks) =
     (let lines = split_nl (buffer @ chunk)
      in concat (map (on_line parse) (butlast lines)) @ read_loop parse (last lines) chunks)"

text \<open>
  How the stream request settles: it rejects, or a response arrives with its \<open>ok\<close> flag,
  the decoded chunks of its body and the way the body ends.
\<close>

datatype body_end = Done | ReadFails string

datatype stream_reply = FetchRejects string | Response bool "string list" body_end

text \<open>
  \<open>streamResponse\<close>: the outcome of the call, the events handed to \<open>onEvent\<close> in order,
  the credential cache and the requests sent.
\<close>

definition streamResponse ::
  "(string \<Rightarrow> 'e option) \<Rightarrow> string \<Rightarrow> string \<Rightarrow> int \<Rightarrow> auth_reply \<Rightarrow> int \<Rightarrow> stream_reply
     \<Rightarrow> vertesia_api \<Rightarrow> unit outcome \<times> 'e list \<times> vertesia_api \<times> net_call list" where
  "streamResponse parse wfId rId now auth later reply a =
     (case getAuthToken now auth later a of
        (Throws e, a1, sent) \<Rightarrow> (Throws e, [], a1, sent)
      | (Returns tok, a1, sent) \<Rightarrow>
          (case reply of
             FetchRejects e \<Rightarrow> (Throws e, [], a1, sent @ [OpenStream wfId rId])
           | Response ok chunks ending \<Rightarrow>
               if \<not> ok then (Returns (), [], a1, sent @ [OpenStream wfId rId])
               else ((case ending of Done \<Rightarrow> Returns () | ReadFails e \<Rightarrow> Throws e),
                     read_loop parse [] chunks, a1, sent @ [OpenStream wfId rId])))"

text \<open>
  The lines of a text, each ended by a line feed (what follows the last line feed is not
  a line); what a line carries; whether it is a well-formed \<open>data:\<close> line.
\<close>

definition complete_lines :: "string \<Rightarrow> string list" where
  "complete_lines text = butlast (split_nl text)"

definition payload :: "(string \<Rightarrow> 'e option) \<Rightarrow> string \<Rightarrow> 'e option" where
  "payload parse line = (if startsWith line ''data:'' then parse (js_trim (drop 5 line)) else None)"

definition well_formed :: "(string \<Rightarrow> 'e option) \<Rightarrow> string \<Rightarrow> bool" where
  "well_formed parse line = (payload parse line \<noteq> None)"

text \<open>
  Example inputs for the API client: an empty credential cache, a credential endpoint
  that grants a token, and a stand-in for \<open>JSON.parse\<close> that accepts digit strings.
\<close>

definition fresh_api :: vertesia_api where
  "fresh_api = \<lparr>apiKey = ''key'', envId = ''env'', jwt = None, jwtExpiry = 0\<rparr>"

definition token_body :: "string \<Rightarrow> auth_data" where
  "token_body t = \<lparr>data_token = Some t, data_jwt = None, data_access_token = None\<rparr>"

definition granted :: "string \<Rightarrow> auth_reply" where
  "granted t = AuthResponse True (Returns (token_body t))"

definition digits_only :: "string \<Rightarrow> string option" where
  "digits_only s =
     (if s \<noteq> [] \<and> list_all (\<lambda>c. c \<in> set ''0123456789'') s then Some s else None)"

definition sample_chunks :: "string list" where
  "sample_chunks =
     [''da'', ''ta: 1'' @ [newline] @ ''data: {x'' @ [newline] @ ''noise'' @ [newline, newline]
        @ ''data:2'', [], [newline], ''data: 3'']"

section \<open>chat.js: extracting the answer\<close>

text \<open>
  The regular expression of \<open>extractAnswer\<close>, piece by piece. A literal is matched
  without regard to case (the \<open>i\<close> flag; among code units below 256 only the basic
  letters fold onto the basic letters), and the rest of the input is returned.
\<close>

fun match_ci :: "string \<Rightarrow> string \<Rightarrow> string option" where
  "match_ci [] s = Some s"
| "match_ci (p # ps) [] = None"
| "match_ci (p # ps) (c # cs) = (if lower_char c = lower_char p then match_ci ps cs else None)"

text \<open>
  The marker: two asterisks, \<open>3.\<close>, any white space, \<open>Agent Answer:\<close>, two asterisks.
  The greedy white space never has to give anything back, since the letter that follows
  is no white space.
\<close>

definition marker_at :: "string \<Rightarrow> string option" where
  "marker_at s =
     (case match_ci ''**3.'' s of
        None \<Rightarrow> None
      | Some r \<Rightarrow> match_ci ''Agent Answer:**'' (dropWhile is_space r))"

text \<open>The first position at which the marker matches; the text after it.\<close>

fun find_marker :: "string \<Rightarrow> string option" where
  "find_marker [] = marker_at []"
| "find_marker (c # cs) =
     (case marker_at (c # cs) of Some r \<Rightarrow> Some r | None \<Rightarrow> find_marker cs)"

text \<open>The lookahead: two asterisks, one or more digits, a full stop.\<close>

definition is_digit :: "char \<Rightarrow> bool" where
  "is_digit c = (c \<in> set ''0123456789'')"

definition section_ahead :: "string \<Rightarrow> bool" where
  "section_ahead s =
     (case match_ci ''**'' s of
        None \<Rightarrow> False
      | Some r \<Rightarrow> takeWhile is_digit r \<noteq> [] \<and> startsWith (dropWhile is_digit r) ''.'')"

text \<open>
  The lazy group: as few characters as reach a position where the lookahead holds or
  the input ends.
\<close>

fun capture :: "string \<Rightarrow> string" where
  "capture [] = []"
| "capture (c # cs) = (if section_ahead (c # cs) then [] else c # capture cs)"

definition extractAnswer :: "string \<Rightarrow> string" where
  "extractAnswer fullMessage =
     (case find_marker fullMessage of
        None \<Rightarrow> fullMessage
      | Some r \<Rightarrow> js_trim (capture (dropWhile is_space r)))"

text \<open>
  For the statement of what is extracted: no numbered section marker starts inside
  \<open>body\<close> when \<open>rest\<close> follows it.
\<close>

fun no_section_within :: "string \<Rightarrow> string \<Rightarrow> bool" where
  "no_section_within [] rest = True"
| "no_section_within (c # cs) rest =
     (\<not> section_ahead (c # cs @ rest) \<and> no_section_within cs rest)"

section \<open>chat.js: sending a chat turn\<close>

text \<open>
  The module state of chat.js with what it reads from \<open>state\<close>, the events it emits,
  the requests it sends and the pending demo replies as (delay in ms, context key,
  answer).
\<close>

record chat_state =
  chat_liveMode :: bool
  chat_api :: bool
  histories :: histories
  activeStream :: "(string \<times> string) option"
  chat_emitted :: "bus_event list"
  chat_network :: "net_call list"
  chat_timers :: "(nat \<times> string \<times> string) list"

text \<open>
  What happens while a turn's stream is open: an event is delivered at some clock
  reading, or \<open>cancelActiveStream\<close> is called. Then the stream call settles. The
  environment of a turn also holds the settlement of the execute request (run id and
  workflow id) and of the fallback status request with its clock reading.
\<close>

datatype chat_item = Delivered int stream_event | Cancel

record chat_env =
  exec_reply :: "(string \<times> string) outcome"
  stream_items :: "chat_item list"
  stream_end :: "unit outcome"
  status_reply :: "run_reply outcome"
  status_time :: int

definition chat_emit :: "bus_event \<Rightarrow> chat_state \<Rightarrow> chat_state" where
  "chat_emit e cs = cs\<lparr>chat_emitted := chat_emitted cs @ [e]\<rparr>"

definition chat_send :: "net_call \<Rightarrow> chat_state \<Rightarrow> chat_state" where
  "chat_send c cs = cs\<lparr>chat_network := chat_network cs @ [c]\<rparr>"

definition cancelActiveStream :: "chat_state \<Rightarrow> chat_state" where
  "cancelActiveStream cs = cs\<lparr>activeStream := None\<rparr>"

text \<open>Appending the assistant's answer and announcing it.\<close>

definition answer_turn :: "string \<Rightarrow> string \<Rightarrow> int \<Rightarrow> chat_state \<Rightarrow> chat_state" where
  "answer_turn contextKey answer now cs =
     chat_emit (ChatResponse contextKey answer)
       (cs\<lparr>histories := addMessage contextKey Assistant answer now (histories cs)\<rparr>)"

definition dquote :: char where
  "dquote = CHR 0x22"

text \<open>\<open>Array.prototype.join\<close> and the "previous conversation" block of the task.\<close>

fun join :: "string \<Rightarrow> string list \<Rightarrow> string" where
  "join sep [] = []"
| "join sep [x] = x"
| "join sep (x # y # ys) = x @ sep @ join sep (y # ys)"

definition history_line :: "chat_message \<Rightarrow> string" where
  "history_line m = (if role m = User then ''User'' else ''Assistant'') @ '': '' @ content m"

definition previous_conversation :: "chat_message list \<Rightarrow> string" where
  "previous_conversation history =
     (if length history > 2
      then ''Previous conversation:'' @ [newline]
             @ join [newline] (map history_line (js_slice (- 10) (- 1) history))
             @ [newline, newline]
      else [])"

text \<open>The stream callbacks of the two senders.\<close>

definition on_doc_event :: "string \<Rightarrow> int \<Rightarrow> stream_event \<Rightarrow> chat_state \<Rightarrow> chat_state" where
  "on_doc_event contextKey now data cs =
     (if ev_type data = ''answer'' \<and> truthy (ev_message data)
      then (answer_turn contextKey (extractAnswer (the (ev_message data))) now cs)
             \<lparr>activeStream := None\<rparr>
      else cs)"

definition on_ws_event :: "string \<Rightarrow> int \<Rightarrow> stream_event \<Rightarrow> chat_state \<Rightarrow> chat_state" where
  "on_ws_event contextKey now data cs =
     (if ev_type data = ''answer'' \<and> truthy (ev_message data)
      then answer_turn contextKey (extractAnswer (the (ev_message data))) now cs
      else cs)"

fun while_streaming ::
  "(int \<Rightarrow> stream_event \<Rightarrow> chat_state \<Rightarrow> chat_state) \<Rightarrow> chat_item list \<Rightarrow> chat_state \<Rightarrow> chat_state" where
  "while_streaming onEvent [] cs = cs"
| "while_streaming onEvent (Delivered now data # items) cs =
     while_streaming onEvent items (onEvent now data cs)"
| "while_streaming onEvent (Cancel # items) cs =
     while_streaming onEvent items (cancelActiveStream cs)"

definition doc_task :: "string \<Rightarrow> string \<Rightarrow> chat_message list \<Rightarrow> string \<Rightarrow> string" where
  "doc_task doc_id docTitle history question =
     ''DOCUMENT CONTEXT: Analyze document ID '' @ doc_id @ '' ('' @ docTitle @ '')''
     @ [newline, newline] @ previous_conversation history @ ''Current question: '' @ question"

text \<open>
  What \<open>sendDocChat\<close> does once its stream call has resolved: with the marker still
  set, one status query, whose message is the answer and whose lack of one is an error.
\<close>

definition doc_after_stream ::
  "string \<Rightarrow> string \<Rightarrow> string \<Rightarrow> chat_env \<Rightarrow> chat_state \<Rightarrow> chat_state" where
  "doc_after_stream contextKey wfId rId env cs =
     (if activeStream cs \<noteq> None
      then (let cs1 = chat_send (GetRunStatus wfId rId) cs
            in case status_reply env of
                 Throws e \<Rightarrow> (chat_emit (ChatError contextKey e) cs1)\<lparr>activeStream := None\<rparr>
               | Returns r \<Rightarrow>
                   (if truthy (result_message r)
                    then answer_turn contextKey (extractAnswer (the (result_message r)))
                           (status_time env) cs1
                    else chat_emit (ChatError contextKey ''No response received'') cs1)
                   \<lparr>activeStream := None\<rparr>)
      else cs)"

definition sendDocChat ::
  "string \<Rightarrow> string \<Rightarrow> string \<Rightarrow> int \<Rightarrow> chat_env \<Rightarrow> chat_state \<Rightarrow> chat_state" where
  "sendDocChat doc_id docTitle question now env cs =
     (let contextKey = ''doc:'' @ doc_id;
          cs1 = chat_emit (ChatUserMessage contextKey question)
                  (cs\<lparr>histories := addMessage contextKey User question now (histories cs)\<rparr>)
      in if \<not> chat_liveMode cs1 \<or> \<not> chat_api cs1
         then cs1\<lparr>chat_timers := chat_timers cs1 @
                [(1500, contextKey,
                  ''This is a demo response about '' @ [dquote] @ docTitle @ [dquote]
                  @ ''. In live mode, Scout would analyze the document and provide insights based on your question.'')]\<rparr>
         else
           (let cs2 = chat_emit (ChatThinking contextKey) cs1;
                task = doc_task doc_id docTitle (getHistory (histories cs2) contextKey) question;
                cs3 = chat_send (ExecuteResearch task) cs2
            in case exec_reply env of
                 Throws e \<Rightarrow> (chat_emit (ChatError contextKey e) cs3)\<lparr>activeStream := None\<rparr>
               | Returns (rId, wfId) \<Rightarrow>
                   (let cs4 = chat_send (OpenStream wfId rId) (cs3\<lparr>activeStream := Some (wfId, rId)\<rparr>);
                        cs5 = while_streaming (on_doc_event contextKey) (stream_items env) cs4
                    in case stream_end env of
                         Throws e \<Rightarrow> (chat_emit (ChatError contextKey e) cs5)\<lparr>activeStream := None\<rparr>
                       | Returns u \<Rightarrow> doc_after_stream contextKey wfId rId env cs5)))"

text \<open>
  \<open>sendWorkspaceChat\<close>, with the workspace's documents as (title, id) pairs. It sets no
  active-stream marker, and nothing follows the stream call inside its \<open>try\<close>.
\<close>

definition doc_line :: "string \<times> string \<Rightarrow> string" where
  "doc_line d = ''- '' @ fst d @ '' (ID: '' @ snd d @ '')''"

definition ws_task ::
  "string \<Rightarrow> (string \<times> string) list \<Rightarrow> chat_message list \<Rightarrow> string \<Rightarrow> string" where
  "ws_task wsName docs history question =
     ''WORKSPACE CONTEXT: '' @ [dquote] @ wsName @ [dquote, newline]
     @ ''Documents in workspace:'' @ [newline]
     @ join [newline] (map doc_line docs) @ [newline, newline]
     @ previous_conversation history @ ''Question: '' @ question"

definition sendWorkspaceChat ::
  "string \<Rightarrow> string \<Rightarrow> string \<Rightarrow> (string \<times> string) list \<Rightarrow> int \<Rightarrow> chat_env \<Rightarrow> chat_state
     \<Rightarrow> chat_state" where
  "sendWorkspaceChat wsId wsName question docs now env cs =
     (let contextKey = ''ws:'' @ wsId;
          cs1 = chat_emit (ChatUserMessage contextKey question)
                  (cs\<lparr>histories := addMessage contextKey User question now (histories cs)\<rparr>)
      in if \<not> chat_liveMode cs1 \<or> \<not> chat_api cs1
         then cs1\<lparr>chat_timers := chat_timers cs1 @
                [(1500, contextKey,
                  ''Demo response for workspace '' @ [dquote] @ wsName @ [dquote]
                  @ ''. In live mode, Scout would analyze all documents in this workspace.'')]\<rparr>
         else
           (let cs2 = chat_emit (ChatThinking contextKey) cs1;
                task = ws_task wsName docs (getHistory (histories cs2) contextKey) question;
                cs3 = chat_send (ExecuteResearch task) cs2
            in case exec_reply env of
                 Throws e \<Rightarrow> chat_emit (ChatError contextKey e) cs3
               | Returns (rId, wfId) \<Rightarrow>
                   (let cs4 = chat_send (OpenStream wfId rId) cs3;
                        cs5 = while_streaming (on_ws_event contextKey) (stream_items env) cs4
                    in case stream_end env of
                         Throws e \<Rightarrow> chat_emit (ChatError contextKey e) cs5
                       | Returns u \<Rightarrow> cs5)))"

text \<open>A pending demo reply fires.\<close>

definition demo_reply_fires :: "nat \<times> string \<times> string \<Rightarrow> int \<Rightarrow> chat_state \<Rightarrow> chat_state" where
  "demo_reply_fires timer now cs =
     (if timer \<in> set (chat_timers cs)
      then answer_turn (fst (snd timer)) (snd (snd timer)) now
             (cs\<lparr>chat_timers := remove1 timer (chat_timers cs)\<rparr>)
      else cs)"

text \<open>How a turn ended, read off the events emitted for a context.\<close>

definition responses :: "string \<Rightarrow> chat_state \<Rightarrow> nat" where
  "responses contextKey cs =
     length (filter (\<lambda>e. case e of ChatResponse k a \<Rightarrow> k = contextKey | _ \<Rightarrow> False)
               (chat_emitted cs))"

definition errors :: "string \<Rightarrow> chat_state \<Rightarrow> nat" where
  "errors contextKey cs =
     length (filter (\<lambda>e. case e of ChatError k m \<Rightarrow> k = contextKey | _ \<Rightarrow> False)
               (chat_emitted cs))"

text \<open>
  Example inputs: a live chat module with nothing yet said, and a turn whose execute
  request succeeds, whose stream delivers progress only and ends normally, and whose
  status query has no result yet.
\<close>

definition live_chat :: chat_state where
  "live_chat =
     \<lparr>chat_liveMode = True, chat_api = True, histories = Map.empty, activeStream = None,
      chat_emitted = [], chat_network = [], chat_timers = []\<rparr>"

definition progress_only :: chat_env where
  "progress_only =
     \<lparr>exec_reply = Returns (''run-1'', ''wf-1''),
      stream_items = [Delivered 10 \<lparr>ev_type = ''update'', ev_message = Some ''Searching''\<rparr>],
      stream_end = Returns (),
      status_reply = Returns \<lparr>run_status = Some ''running'', result_status = None,
                               result_message = None\<rparr>,
      status_time = 20\<rparr>"

definition bold_sections :: string where
  "bold_sections = ''... **3. Agent Answer:** The value is 42 **4. Next:** ...''"

definition plain_sections :: string where
  "plain_sections = ''3. Agent Answer: The value is 42 4. Next: done''"

text \<open>No marker starts inside \<open>pre\<close> when \<open>rest\<close> follows it.\<close>

fun no_marker_within :: "string \<Rightarrow> string \<Rightarrow> bool" where
  "no_marker_within [] rest = True"
| "no_marker_within (c # cs) rest = (marker_at (c # cs @ rest) = None \<and> no_marker_within cs rest)"

definition answer_section :: string where
  "answer_section = ''**3. Agent Answer:** The value is 42 **4. Next:** ...''"

text \<open>Twenty-two messages sent to one context, stamped 0 to 21.\<close>

definition burst :: "add_call list" where
  "burst = map (\<lambda>n. (''doc:d1'', User, ''q'', int n)) [0..<22]"

text \<open>Whether an item of a turn's stream is an \<open>answer\<close> event with a message.\<close>

fun carries_answer :: "chat_item \<Rightarrow> bool" where
  "carries_answer (Delivered now data) = (ev_type data = ''answer'' \<and> truthy (ev_message data))"
| "carries_answer Cancel = False"

section \<open>Properties of the conversation histories\<close>

lemma js_slice_from_neg: "js_slice_from (- 20) xs = most_recent 20 xs"
proof -
  have "nat (max (int (length xs) - 20) 0) = length xs - 20" by simp
  then show ?thesis
    by (simp add: js_slice_from_def clamp_index_def most_recent_def)
qed

lemma most_recent_short: "length xs \<le> n \<Longrightarrow> most_recent n xs = xs"
  by (simp add: most_recent_def)

lemma most_recent_append: "most_recent n (most_recent n xs @ ys) = most_recent n (xs @ ys)"
proof (cases "length xs \<le> n")
  case True
  then show ?thesis by (simp add: most_recent_def)
next
  case False
  then have "length ys + length xs - n = length xs + length ys - n" by arith
  with False show ?thesis by (simp add: most_recent_def)
qed

lemma length_most_recent: "length (most_recent n xs) \<le> n"
  by (simp add: most_recent_def)

lemma getHistory_addMessage_same:
  "getHistory (addMessage k r c t h) k =
     most_recent 20 (getHistory h k @ [\<lparr>role = r, content = c, time = t\<rparr>])"
  by (cases "h k")
    (simp_all add: addMessage_def getHistory_def Let_def js_slice_from_neg most_recent_short)

lemma getHistory_addMessage_other:
  "k' \<noteq> k \<Longrightarrow> getHistory (addMessage k' r c t h) k = getHistory h k"
  by (simp add: addMessage_def getHistory_def Let_def)

lemma getHistory_addMessages:
  "getHistory (addMessages calls h) k =
     (if sent_to k calls = [] then getHistory h k
      else most_recent 20 (getHistory h k @ sent_to k calls))"
proof (induction calls arbitrary: h)
  case Nil
  show ?case by simp
next
  case (Cons call calls)
  obtain k' r c t where call: "call = (k', r, c, t)" by (cases call) auto
  show ?case
  proof (cases "k' = k")
    case True
    then show ?thesis
      using Cons.IH [of "addMessage k r c t h"]
      by (simp add: call getHistory_addMessage_same most_recent_append)
  next
    case False
    then show ?thesis
      using Cons.IH [of "addMessage k' r c t h"]
      by (simp add: call getHistory_addMessage_other)
  qed
qed

section \<open>Properties of the job lifecycle\<close>

lemma find_None_ids: "\<forall>j\<in>set js. job_id j \<noteq> jobId \<Longrightarrow> find (\<lambda>j. job_id j = jobId) js = None"
  by (induction js) auto

lemma updateJob_absent: "\<forall>j\<in>set (jobs st). job_id j \<noteq> jobId \<Longrightarrow> updateJob jobId u st = st"
  by (simp add: updateJob_def find_None_ids)

lemma updateJob_frame [simp]:
  "pollers (updateJob j u st) = pollers st"
  "timeouts (updateJob j u st) = timeouts st"
  "api (updateJob j u st) = api st"
  "network (updateJob j u st) = network st"
  "completions jid (updateJob j u st) = completions jid st"
  by (simp_all add: updateJob_def saveJobs_def emit_def completions_def Let_def split: option.splits)

lemma reload_frame [simp]:
  "pollers (reload j env st) = pollers st"
  "timeouts (reload j env st) = timeouts st"
  "api (reload j env st) = api st"
  "jobs (reload j env st) = jobs st"
  "completions jid (reload j env st) = completions jid st"
  by (simp_all add: reload_def setDocuments_def setCollectionMembers_def emit_def completions_def
        Let_def split: option.splits outcome.splits)

lemma emit_frame [simp]:
  "pollers (emit e st) = pollers st"
  "timeouts (emit e st) = timeouts st"
  "api (emit e st) = api st"
  "jobs (emit e st) = jobs st"
  "network (emit e st) = network st"
  "completions jid (emit e st) = completions jid st + (if e = ResearchCompleted jid then 1 else 0)"
  by (simp_all add: emit_def completions_def)

lemma completeJob_frame [simp]:
  "pollers (completeJob j now env st) = pollers st"
  "timeouts (completeJob j now env st) = timeouts st"
  "api (completeJob j now env st) = api st"
  "completions jid (completeJob j now env st) = completions jid st + (if j = jid then 1 else 0)"
  by (simp_all add: completeJob_def Let_def)

lemma on_job_event_frame [simp]:
  "pollers (on_job_event j d now env st) = pollers st"
  "timeouts (on_job_event j d now env st) = timeouts st"
  "completions jid (on_job_event j d now env st) =
     completions jid st + (if j = jid \<and> ev_type d = ''answer'' then 1 else 0)"
  by (simp_all add: on_job_event_def Let_def split: option.splits)


lemma completions_pollers_upd [simp]:
  "completions jid (st\<lparr>pollers := ps\<rparr>) = completions jid st"
  "completions jid (st\<lparr>network := ns\<rparr>) = completions jid st"
  "completions jid (st\<lparr>timeouts := ts\<rparr>) = completions jid st"
  by (simp_all add: completions_def)

lemma poll_fire_frame [simp]:
  "timeouts (poll_fire j st) = timeouts st"
  "api (poll_fire j st) = api st"
  "completions jid (poll_fire j st) = completions jid st"
  by (simp_all add: poll_fire_def Let_def split: option.splits)

lemma poll_settle_frame [simp]:
  "timeouts (poll_settle j reply now env st) = timeouts st"
  "api (poll_settle j reply now env st) = api st"
  by (simp_all add: poll_settle_def Let_def split: option.splits outcome.splits)

lemma poll_settle_lower: "completions jid st \<le> completions jid (poll_settle j reply now env st)"
  by (simp add: poll_settle_def Let_def split: option.splits outcome.splits)

lemma poll_settle_upper:
  "completions jid (poll_settle j reply now env st)
     \<le> completions jid st + of_bool (is_success jid (now, StatusSettles j reply))"
  by (auto simp add: poll_settle_def is_success_def reports_success_def Let_def
        split: option.splits outcome.splits)

text \<open>
  A reply that reports success completes the job whenever its request was in flight,
  whatever the job's status and whether or not the interval is still set.
\<close>

lemma poll_settle_success:
  assumes "pollers st jid = Some p" "0 < in_flight p" "reports_success reply"
  shows "completions jid (poll_settle jid reply now env st) = completions jid st + 1"
  using assms
  by (auto simp add: poll_settle_def reports_success_def Let_def split: outcome.splits)

lemma poll_fire_cleared: "\<not> armed jid st \<Longrightarrow> poll_fire jid st = st"
  by (simp add: poll_fire_def armed_def split: option.splits)


lemma armed_frame [simp]:
  "armed jid (on_job_event j d now env st) = armed jid st"
  "armed jid (completeJob j now env st) = armed jid st"
  "armed jid (st\<lparr>timeouts := ts\<rparr>) = armed jid st"
  by (simp_all add: armed_def)

lemma pending_frame [simp]:
  "pending jid (on_job_event j d now env st) = pending jid st"
  "pending jid (poll_fire j st) = pending jid st"
  "pending jid (poll_settle j reply now env st) = pending jid st"
  "pending jid (completeJob j now env st) = pending jid st"
  by (simp_all add: pending_def)

lemma count_list_remove1_same:
  "x \<in> set xs \<Longrightarrow> Suc (count_list (remove1 x xs) x) = count_list xs x"
  by (induction xs) auto

lemma count_list_remove1_other: "x \<noteq> y \<Longrightarrow> count_list (remove1 x xs) y = count_list xs y"
  by (induction xs) auto

lemma timeout_fires_lower: "completions jid st \<le> completions jid (timeout_fires j now env st)"
  by (simp add: timeout_fires_def)

lemma timeout_fires_armed [simp]: "armed jid (timeout_fires j now env st) = armed jid st"
  by (simp add: timeout_fires_def)

lemma timeout_fires_upper:
  "completions jid (timeout_fires j now env st) + pending jid (timeout_fires j now env st)
     \<le> completions jid st + pending jid st"
proof (cases "(8000, j) \<in> set (timeouts st)")
  case False
  then show ?thesis by (simp add: timeout_fires_def)
next
  case True
  show ?thesis
  proof (cases "j = jid")
    case True
    with \<open>(8000, j) \<in> set (timeouts st)\<close> show ?thesis
      using count_list_remove1_same [of "(8000, jid)" "timeouts st"]
      by (simp add: timeout_fires_def pending_def)
  next
    case False
    then show ?thesis
      by (simp add: timeout_fires_def pending_def count_list_remove1_other)
  qed
qed

lemma step_lower:
  "completions jid st + of_bool (is_answer jid s) \<le> completions jid (step env s st)"
proof (cases s)
  case (Pair now sig)
  then show ?thesis
    by (cases sig) (simp_all add: is_answer_def poll_settle_lower timeout_fires_lower)
qed

lemma step_upper:
  "completions jid (step env s st) + pending jid (step env s st)
     \<le> completions jid st + of_bool (is_answer jid s) + of_bool (is_success jid s)
         + pending jid st"
proof (cases s)
  case (Pair now sig)
  show ?thesis
  proof (cases sig)
    case (IntervalFires j)
    then show ?thesis by (simp add: Pair)
  next
    case (StatusSettles j reply)
    then show ?thesis
      using poll_settle_upper [of jid j reply now env st] by (simp add: Pair)
  next
    case (StreamEvent j d)
    then show ?thesis by (simp add: Pair is_answer_def)
  next
    case (TimeoutFires j)
    then show ?thesis
      using timeout_fires_upper [of jid j now env st] by (simp add: Pair)
  qed
qed

lemma run_lower:
  "completions jid st + answers jid tr \<le> completions jid (run_signals env tr st)"
proof (induction tr arbitrary: st)
  case Nil
  show ?case by (simp add: answers_def)
next
  case (Cons s tr)
  have a: "answers jid (s # tr) = of_bool (is_answer jid s) + answers jid tr"
    by (simp add: answers_def)
  show ?case
    unfolding run_signals.simps a
    using Cons.IH [of "step env s st"] step_lower [of jid st s env]
    by linarith
qed

lemma run_upper:
  "completions jid (run_signals env tr st) + pending jid (run_signals env tr st)
     \<le> completions jid st + answers jid tr + successes jid tr + pending jid st"
proof (induction tr arbitrary: st)
  case Nil
  show ?case by (simp add: answers_def successes_def)
next
  case (Cons s tr)
  have a: "answers jid (s # tr) = of_bool (is_answer jid s) + answers jid tr"
    by (simp add: answers_def)
  have b: "successes jid (s # tr) = of_bool (is_success jid s) + successes jid tr"
    by (simp add: successes_def)
  show ?case
    unfolding run_signals.simps a b
    using Cons.IH [of "step env s st"] step_upper [of jid env s st]
    by linarith
qed

text \<open>
  Reloads and completions go together: every \<open>completeJob\<close> emits once and, with
  \<open>state.api\<close> set, sends one \<open>loadAllObjects\<close>; nothing else does either.
\<close>

lemma all_completions_frame [simp]:
  "all_completions (emit e st) = all_completions st + of_bool (is_completion e)"
  "all_completions (st\<lparr>pollers := ps\<rparr>) = all_completions st"
  "all_completions (st\<lparr>network := ns\<rparr>) = all_completions st"
  "all_completions (st\<lparr>timeouts := ts\<rparr>) = all_completions st"
  "all_completions (st\<lparr>nextJobId := n\<rparr>) = all_completions st"
  by (simp_all add: all_completions_def emit_def)

lemma all_completions_updateJob [simp]:
  "all_completions (updateJob j u st) = all_completions st"
  by (simp add: updateJob_def saveJobs_def emit_def all_completions_def is_completion_def Let_def
        split: option.splits)

lemma all_completions_reload [simp]: "all_completions (reload j env st) = all_completions st"
  by (simp add: reload_def setDocuments_def setCollectionMembers_def emit_def
        all_completions_def is_completion_def Let_def split: option.splits outcome.splits)

lemma all_completions_completeJob [simp]:
  "all_completions (completeJob j now env st) = all_completions st + 1"
  by (simp add: completeJob_def Let_def is_completion_def)

lemma reloads_frame [simp]:
  "reloads (emit e st) = reloads st"
  "reloads (updateJob j u st) = reloads st"
  "reloads (setDocuments docs st) = reloads st"
  "reloads (setCollectionMembers ws ms st) = reloads st"
  "reloads (st\<lparr>pollers := ps\<rparr>) = reloads st"
  "reloads (st\<lparr>timeouts := ts\<rparr>) = reloads st"
  "reloads (st\<lparr>nextJobId := n\<rparr>) = reloads st"
  "reloads (st\<lparr>network := network st @ [c]\<rparr>) = reloads st + of_bool (c = LoadAllObjects)"
  by (simp_all add: reloads_def setDocuments_def setCollectionMembers_def)

lemma reloads_reload: "reloads (reload j env st) = reloads st + 1"
  by (simp add: reload_def Let_def split: outcome.splits option.splits)

lemma reloads_completeJob:
  "reloads (completeJob j now env st) = reloads st + of_bool (api st)"
  by (simp add: completeJob_def Let_def reloads_reload)

lemma reload_per_completion_refl: "reload_per_completion st st"
  by (simp add: reload_per_completion_def)

lemma reload_per_completion_trans: "reload_per_completion a b \<Longrightarrow> reload_per_completion b c \<Longrightarrow> reload_per_completion a c"
  by (auto simp add: reload_per_completion_def split: if_splits)

lemma reload_per_completion_completeJob: "api st' = api st \<Longrightarrow> reloads st' = reloads st \<Longrightarrow>
    all_completions st' = all_completions st \<Longrightarrow> reload_per_completion st (completeJob j now env st')"
  by (simp add: reload_per_completion_def reloads_completeJob)

lemma reload_per_completion_quiet: "api st' = api st \<Longrightarrow> reloads st' = reloads st \<Longrightarrow>
    all_completions st' = all_completions st \<Longrightarrow> reload_per_completion st st'"
  by (simp add: reload_per_completion_def)

lemma reload_per_completion_poll_fire: "reload_per_completion st (poll_fire j st)"
  by (rule reload_per_completion_quiet)
     (simp_all add: poll_fire_def Let_def reloads_def split: option.splits)

lemma reload_per_completion_poll_settle: "reload_per_completion st (poll_settle j reply now env st)"
  by (simp add: reload_per_completion_def poll_settle_def Let_def reloads_completeJob
        split: option.splits outcome.splits)

lemma reload_per_completion_on_job_event: "reload_per_completion st (on_job_event j d now env st)"
  by (simp add: reload_per_completion_def on_job_event_def Let_def reloads_completeJob
        split: option.splits)

lemma reload_per_completion_timeout_fires: "reload_per_completion st (timeout_fires j now env st)"
  by (simp add: reload_per_completion_def timeout_fires_def reloads_completeJob)

lemma reload_per_completion_step: "reload_per_completion st (step env s st)"
proof (cases s)
  case (Pair now sig)
  then show ?thesis
    by (cases sig)
      (simp_all add: reload_per_completion_poll_fire reload_per_completion_poll_settle reload_per_completion_on_job_event
         reload_per_completion_timeout_fires)
qed

lemma reload_per_completion_run: "reload_per_completion st (run_signals env tr st)"
proof (induction tr arbitrary: st)
  case Nil
  show ?case by (simp add: reload_per_completion_refl)
next
  case (Cons s tr)
  show ?case
    using reload_per_completion_trans [OF reload_per_completion_step [of st env s] Cons.IH [of "step env s st"]] by simp
qed

lemma job_id_assign [simp]: "job_id (assign u j) = job_id j"
  by (simp add: assign_def)

lemma find_assign_first:
  "find (\<lambda>x. job_id x = jid) (assign_first j u js) =
     (if j = jid then map_option (assign u) (find (\<lambda>x. job_id x = jid) js)
      else find (\<lambda>x. job_id x = jid) js)"
  by (induction js) auto

lemma job_of_updateJob:
  "job_of jid (updateJob j u st) =
     (if j = jid then map_option (assign u) (job_of jid st) else job_of jid st)"
  by (cases "find (\<lambda>x. job_id x = j) (jobs st)")
     (auto simp add: job_of_def updateJob_def saveJobs_def emit_def Let_def find_assign_first)

lemma job_of_jobs: "jobs st' = jobs st \<Longrightarrow> job_of jid st' = job_of jid st"
  by (simp add: job_of_def)

lemma job_of_completeJob:
  "job_of jid (completeJob j now env st) =
     (if j = jid
      then map_option (assign \<lparr>set_status = Some Completed, set_completedAt = Some now,
                               set_statusText = Some ''Complete''\<rparr>) (job_of jid st)
      else job_of jid st)"
proof -
  let ?u = "\<lparr>set_status = Some Completed, set_completedAt = Some now,
             set_statusText = Some ''Complete''\<rparr>"
  have "jobs (completeJob j now env st) = jobs (updateJob j ?u st)"
    by (simp add: completeJob_def Let_def)
  then have "job_of jid (completeJob j now env st) = job_of jid (updateJob j ?u st)"
    by (rule job_of_jobs)
  then show ?thesis by (simp add: job_of_updateJob)
qed

lemma status_of_updateJob:
  "status_of jid (updateJob j u st) =
     (if j = jid \<and> job_of jid st \<noteq> None \<and> set_status u \<noteq> None then set_status u
      else status_of jid st)"
  by (cases "job_of jid st") (auto simp add: status_of_def job_of_updateJob assign_def)

lemma statusText_of_updateJob:
  "statusText_of jid (updateJob j u st) =
     (if j = jid \<and> job_of jid st \<noteq> None \<and> set_statusText u \<noteq> None then set_statusText u
      else statusText_of jid st)"
  by (cases "job_of jid st") (auto simp add: statusText_of_def job_of_updateJob assign_def)

lemma status_of_completeJob_other:
  "j \<noteq> jid \<Longrightarrow> status_of jid (completeJob j now env st) = status_of jid st"
  by (simp add: status_of_def job_of_completeJob)

lemma status_of_completeJob_same:
  "job_of jid st \<noteq> None \<Longrightarrow> status_of jid (completeJob jid now env st) = Some Completed"
  by (cases "job_of jid st") (auto simp add: status_of_def job_of_completeJob assign_def)

lemma status_of_frame [simp]:
  "status_of jid (st\<lparr>pollers := ps\<rparr>) = status_of jid st"
  "status_of jid (st\<lparr>network := ns\<rparr>) = status_of jid st"
  "status_of jid (st\<lparr>timeouts := ts\<rparr>) = status_of jid st"
  by (simp_all add: status_of_def job_of_def)

lemma statusText_of_frame [simp]:
  "statusText_of jid (st\<lparr>pollers := ps\<rparr>) = statusText_of jid st"
  "statusText_of jid (st\<lparr>network := ns\<rparr>) = statusText_of jid st"
  "statusText_of jid (st\<lparr>timeouts := ts\<rparr>) = statusText_of jid st"
  by (simp_all add: statusText_of_def job_of_def)

lemma job_of_frame [simp]:
  "job_of jid (st\<lparr>pollers := ps\<rparr>) = job_of jid st"
  "job_of jid (st\<lparr>network := ns\<rparr>) = job_of jid st"
  "job_of jid (st\<lparr>timeouts := ts\<rparr>) = job_of jid st"
  by (simp_all add: job_of_def)


lemma poll_fire_quiet:
  assumes "armed jid st" "attempts_of jid st = Some n" "n < 120"
  shows "armed jid (poll_fire jid st)"
    and "attempts_of jid (poll_fire jid st) = Some (n + 1)"
    and "status_of jid (poll_fire jid st) = status_of jid st"
  using assms
  by (auto simp add: poll_fire_def armed_def attempts_of_def Let_def split: option.splits)

lemma poll_fire_other_job:
  assumes "j \<noteq> jid"
  shows "armed jid (poll_fire j st) = armed jid st"
    and "attempts_of jid (poll_fire j st) = attempts_of jid st"
    and "status_of jid (poll_fire j st) = status_of jid st"
  using assms
  by (auto simp add: poll_fire_def armed_def attempts_of_def Let_def status_of_updateJob
        split: option.splits)

lemma poll_settle_quiet:
  assumes "non_terminal reply"
  shows "armed jid (poll_settle jid reply now env st) = armed jid st"
    and "attempts_of jid (poll_settle jid reply now env st) = attempts_of jid st"
    and "status_of jid (poll_settle jid reply now env st) = status_of jid st"
  using assms
  by (auto simp add: poll_settle_def armed_def attempts_of_def Let_def non_terminal_def
        split: option.splits outcome.splits)

lemma poll_settle_other_job:
  assumes "j \<noteq> jid"
  shows "armed jid (poll_settle j reply now env st) = armed jid st"
    and "attempts_of jid (poll_settle j reply now env st) = attempts_of jid st"
    and "status_of jid (poll_settle j reply now env st) = status_of jid st"
  using assms
  by (auto simp add: poll_settle_def armed_def attempts_of_def Let_def status_of_updateJob
        status_of_completeJob_other split: option.splits outcome.splits)

lemma on_job_event_quiet:
  "j \<noteq> jid \<or> ev_type d \<noteq> ''answer'' \<Longrightarrow>
     status_of jid (on_job_event j d now env st) = status_of jid st"
  by (auto simp add: on_job_event_def Let_def status_of_updateJob
        status_of_completeJob_other split: option.splits)

lemma timeout_fires_other_job:
  "j \<noteq> jid \<Longrightarrow> status_of jid (timeout_fires j now env st) = status_of jid st"
  by (simp add: timeout_fires_def status_of_completeJob_other)

lemma timeout_fires_pollers [simp]: "pollers (timeout_fires j now env st) = pollers st"
  by (simp add: timeout_fires_def)

lemma attempts_of_frame [simp]:
  "attempts_of jid (on_job_event j d now env st) = attempts_of jid st"
  "attempts_of jid (timeout_fires j now env st) = attempts_of jid st"
  by (simp_all add: attempts_of_def)

lemma quiet_step:
  assumes "quiet jid s" "armed jid st" "attempts_of jid st = Some n"
    "n + of_bool (is_tick jid s) \<le> 120"
  shows "armed jid (step env s st)
         \<and> attempts_of jid (step env s st) = Some (n + of_bool (is_tick jid s))
         \<and> status_of jid (step env s st) = status_of jid st"
proof (cases s)
  case (Pair now sig)
  show ?thesis
  proof (cases sig)
    case (IntervalFires j)
    show ?thesis
    proof (cases "j = jid")
      case True
      with assms Pair IntervalFires have "n < 120" by simp
      with assms(2,3) True show ?thesis
        by (simp add: Pair IntervalFires poll_fire_quiet)
    next
      case False
      with assms(2,3) show ?thesis
        by (simp add: Pair IntervalFires poll_fire_other_job)
    qed
  next
    case (StatusSettles j reply)
    show ?thesis
    proof (cases "j = jid")
      case True
      with assms(1) Pair StatusSettles have "non_terminal reply" by simp
      with assms(2,3) True show ?thesis
        by (simp add: Pair StatusSettles poll_settle_quiet)
    next
      case False
      with assms(2,3) show ?thesis
        by (simp add: Pair StatusSettles poll_settle_other_job)
    qed
  next
    case (StreamEvent j d)
    with assms(1) Pair have "j \<noteq> jid \<or> ev_type d \<noteq> ''answer''" by simp
    with assms(2,3) show ?thesis
      by (simp add: Pair StreamEvent on_job_event_quiet)
  next
    case (TimeoutFires j)
    with assms(1) Pair have "j \<noteq> jid" by simp
    with assms(2,3) show ?thesis
      by (simp add: Pair TimeoutFires timeout_fires_other_job)
  qed
qed

lemma quiet_run:
  assumes "list_all (quiet jid) tr" "armed jid st" "attempts_of jid st = Some n"
    "n + ticks jid tr \<le> 120"
  shows "armed jid (run_signals env tr st)
         \<and> attempts_of jid (run_signals env tr st) = Some (n + ticks jid tr)
         \<and> status_of jid (run_signals env tr st) = status_of jid st"
  using assms
proof (induction tr arbitrary: st n)
  case Nil
  then show ?case by (simp add: ticks_def)
next
  case (Cons s tr)
  have t: "ticks jid (s # tr) = of_bool (is_tick jid s) + ticks jid tr"
    by (simp add: ticks_def)
  let ?n = "n + of_bool (is_tick jid s)"
  from Cons.prems t have q: "quiet jid s" and b: "?n \<le> 120" and r: "list_all (quiet jid) tr"
    and c: "?n + ticks jid tr \<le> 120"
    by simp_all
  from quiet_step [OF q Cons.prems(2,3) b, of env]
  have a1: "armed jid (step env s st)"
    and n1: "attempts_of jid (step env s st) = Some ?n"
    and s1: "status_of jid (step env s st) = status_of jid st" by simp_all
  from Cons.IH [OF r a1 n1 c] s1 t show ?case by (simp add: add.assoc)
qed

lemma poll_fire_times_out:
  assumes "armed jid st" "attempts_of jid st = Some 120" "job_of jid st \<noteq> None"
  shows "status_of jid (poll_fire jid st) = Some Failed"
    and "statusText_of jid (poll_fire jid st) = Some ''Timed out''"
    and "\<not> armed jid (poll_fire jid st)"
  using assms
  by (auto simp add: poll_fire_def Let_def status_of_updateJob statusText_of_updateJob armed_def
        attempts_of_def split: option.splits)

lemma run_signals_append:
  "run_signals env (tr @ tr') st = run_signals env tr' (run_signals env tr st)"
  by (induction tr arbitrary: st) simp_all

lemma status_of_None: "status_of jid st = None \<longleftrightarrow> job_of jid st = None"
  by (simp add: status_of_def)


section \<open>Claims about the job lifecycle\<close>

text \<open>
  C1, as the code has it. \<open>completeJob\<close> reads no status before it writes. The stream
  callback calls it on every \<open>answer\<close> event, and the poll callback on every status
  reply that reports \<open>completed\<close> or \<open>succeeded\<close>, also a reply to a request that was
  in flight when the interval was cleared; clearing the interval only stops further
  firings. For a job with no demo timer pending, after any sequence of signals the
  number of \<open>research:completed\<close> emissions for the job has grown by at least the
  number of \<open>answer\<close> events delivered for it and by at most that number plus the number
  of status replies reporting success. One \<open>answer\<close> event adds exactly one emission, and
  so does one successful reply to a request in flight. The reload goes with the
  emission only when \<open>state.api\<close> is set: then the \<open>loadAllObjects\<close> requests grow by as
  many as the emissions (of all jobs), and otherwise by none.
\<close>

theorem completion_per_signal:
  assumes "pending jid st = 0"
  shows "completions jid st + answers jid tr \<le> completions jid (run_signals env tr st)
       \<and> completions jid (run_signals env tr st)
            \<le> completions jid st + answers jid tr + successes jid tr
       \<and> reload_per_completion st (run_signals env tr st)
       \<and> (ev_type data = ''answer'' \<longrightarrow>
            completions jid (step env (now, StreamEvent jid data) sa) = completions jid sa + 1)
       \<and> (pollers sb jid = Some p \<and> 0 < in_flight p \<and> reports_success reply \<longrightarrow>
            completions jid (step env (now, StatusSettles jid reply) sb) = completions jid sb + 1)
       \<and> (\<not> armed jid sc \<longrightarrow> step env (now, IntervalFires jid) sc = sc)"
proof -
  have "completions jid (run_signals env tr st)
          \<le> completions jid st + answers jid tr + successes jid tr + pending jid st"
    using run_upper [of jid env tr st] by linarith
  with assms have bounds:
    "completions jid st + answers jid tr \<le> completions jid (run_signals env tr st)
     \<and> completions jid (run_signals env tr st)
          \<le> completions jid st + answers jid tr + successes jid tr"
    using run_lower [of jid st tr env] by simp
  have settle: "completions jid (step env (now, StatusSettles jid reply) sb) = completions jid sb + 1"
    if "pollers sb jid = Some p \<and> 0 < in_flight p \<and> reports_success reply"
    using that poll_settle_success [of sb jid p reply now env] by simp
  show ?thesis
    using bounds reload_per_completion_run [of st env tr] settle
    by (simp add: poll_fire_cleared)
qed

theorem completion_per_signal_witness:
  "pending 1 live_job_state = 0
   \<and> completions 1 live_job_state + answers 1 overlapping_polls
        \<le> completions 1 (run_signals example_remote overlapping_polls live_job_state)
   \<and> completions 1 (run_signals example_remote overlapping_polls live_job_state)
        \<le> completions 1 live_job_state + answers 1 overlapping_polls
             + successes 1 overlapping_polls
   \<and> successes 1 overlapping_polls = 2
   \<and> reload_per_completion live_job_state
        (run_signals example_remote overlapping_polls live_job_state)
   \<and> completions 1 (step example_remote (1, StreamEvent 1 answer_event) live_job_state)
        = completions 1 live_job_state + 1
   \<and> completions 1 (step example_remote (1, StatusSettles 1 (reply_with ''succeeded''))
                      (poll_fire 1 live_job_state))
        = completions 1 (poll_fire 1 live_job_state) + 1
   \<and> step example_remote (1, IntervalFires 1) initial_state = initial_state"
proof -
  have h: "pending 1 live_job_state = 0" by code_simp
  have a: "ev_type answer_event = ''answer''" by code_simp
  have b: "pollers (poll_fire 1 live_job_state) 1 = Some (live_poller\<lparr>attempts := 1, in_flight := 1\<rparr>)
           \<and> 0 < in_flight (live_poller\<lparr>attempts := 1, in_flight := 1\<rparr>)
           \<and> reports_success (reply_with ''succeeded'')"
    by code_simp
  have c: "\<not> armed 1 initial_state" by code_simp
  have s: "successes 1 overlapping_polls = 2" by code_simp
  from completion_per_signal
         [OF h, of overlapping_polls example_remote answer_event 1 live_job_state
            "poll_fire 1 live_job_state" "live_poller\<lparr>attempts := 1, in_flight := 1\<rparr>"
            "reply_with ''succeeded''" initial_state]
  have "completions 1 live_job_state + answers 1 overlapping_polls
          \<le> completions 1 (run_signals example_remote overlapping_polls live_job_state)
       \<and> completions 1 (run_signals example_remote overlapping_polls live_job_state)
            \<le> completions 1 live_job_state + answers 1 overlapping_polls
                + successes 1 overlapping_polls
       \<and> reload_per_completion live_job_state
            (run_signals example_remote overlapping_polls live_job_state)
       \<and> completions 1 (step example_remote (1, StreamEvent 1 answer_event) live_job_state)
            = completions 1 live_job_state + 1
       \<and> completions 1 (step example_remote (1, StatusSettles 1 (reply_with ''succeeded''))
                          (poll_fire 1 live_job_state))
            = completions 1 (poll_fire 1 live_job_state) + 1
       \<and> step example_remote (1, IntervalFires 1) initial_state = initial_state"
    using a b c by blast
  with h s show ?thesis by simp
qed

text \<open>
  C1 as stated fails: a live job whose stream delivers \<open>answer\<close> and whose next status
  poll reports \<open>succeeded\<close> is completed twice, with two reloads and two
  \<open>research:completed\<close> emissions; likewise when the poll comes first, and likewise
  when the interval fires twice before the first of two \<open>succeeded\<close> replies arrives.
  And a job completed by the stream is set to \<open>failed\<close> afterwards when the poll path
  runs out of attempts.
\<close>

theorem double_completion:
  "completions 1 (run_signals example_remote succeeded_after_answer live_job_state) = 2
   \<and> reloads (run_signals example_remote succeeded_after_answer live_job_state) = 2
   \<and> completions 1 (run_signals example_remote answer_after_succeeded live_job_state) = 2
   \<and> reloads (run_signals example_remote answer_after_succeeded live_job_state) = 2
   \<and> completions 1 (run_signals example_remote overlapping_polls live_job_state) = 2
   \<and> reloads (run_signals example_remote overlapping_polls live_job_state) = 2
   \<and> status_of 1 (run_signals example_remote [(1, StreamEvent 1 answer_event)] live_job_state)
        = Some Completed
   \<and> status_of 1 (run_signals example_remote answer_then_silence live_job_state) = Some Failed"
  by code_simp

text \<open>
  C7. A poller starts with its interval set and zero attempts. Let the job exist, and let
  a sequence of signals hold exactly 120 firings of its interval, no terminal status
  reply, and no \<open>answer\<close> event and no demo timer for the job. Then the job's status is
  still what it was and the interval is still set; the next firing, before any request
  is sent, leaves the job \<open>failed\<close> with the label "Timed out" and the interval
  cleared.
\<close>

theorem poll_cap:
  assumes "pollers st jid = Some p" "interval p" "attempts p = 0"
    and "job_of jid st \<noteq> None"
    and "list_all (quiet jid) tr" "ticks jid tr = 120"
  shows "status_of jid (run_signals env tr st) = status_of jid st
       \<and> armed jid (run_signals env tr st)
       \<and> status_of jid (run_signals env (tr @ [(now, IntervalFires jid)]) st) = Some Failed
       \<and> statusText_of jid (run_signals env (tr @ [(now, IntervalFires jid)]) st)
            = Some ''Timed out''
       \<and> \<not> armed jid (run_signals env (tr @ [(now, IntervalFires jid)]) st)"
proof -
  let ?st = "run_signals env tr st"
  from assms(1-3) have a0: "armed jid st" and n0: "attempts_of jid st = Some 0"
    by (simp_all add: armed_def attempts_of_def)
  from quiet_run [OF assms(5) a0 n0, of env] assms(6)
  have a: "armed jid ?st" and n: "attempts_of jid ?st = Some 120"
    and s: "status_of jid ?st = status_of jid st" by simp_all
  from assms(4) have "status_of jid st \<noteq> None" by (simp add: status_of_None)
  with s have "status_of jid ?st \<noteq> None" by simp
  then have j: "job_of jid ?st \<noteq> None" by (simp add: status_of_None)
  show ?thesis
    using s a poll_fire_times_out [OF a n j]
    by (simp add: run_signals_append)
qed

theorem poll_cap_witness:
  "status_of 1 (run_signals example_remote still_running live_job_state) = Some Running
   \<and> status_of 1 (run_signals example_remote
         (still_running @ [(600000, IntervalFires 1)]) live_job_state)
       = Some Failed
   \<and> statusText_of 1 (run_signals example_remote
         (still_running @ [(600000, IntervalFires 1)]) live_job_state)
       = Some ''Timed out''"
proof -
  have h1: "pollers live_job_state 1 = Some live_poller" by code_simp
  have h2: "interval live_poller" by code_simp
  have h3: "attempts live_poller = 0" by code_simp
  have h4: "job_of 1 live_job_state \<noteq> None" by code_simp
  have h5: "list_all (quiet 1) still_running" by code_simp
  have h6: "ticks 1 still_running = 120" by code_simp
  have h7: "status_of 1 live_job_state = Some Running" by code_simp
  from poll_cap [OF h1 h2 h3 h4 h5 h6, of example_remote 600000] h7
  show ?thesis by simp
qed

text \<open>
  C10. When no job of the list has the given id, \<open>updateJob\<close> returns the state as it
  was: the job list, the writes to the persisted store and the emitted events are all
  unchanged.
\<close>

theorem updateJob_unknown_id:
  assumes "\<forall>j\<in>set (jobs st). job_id j \<noteq> jobId"
  shows "updateJob jobId updates st = st
       \<and> jobs (updateJob jobId updates st) = jobs st
       \<and> store_writes (updateJob jobId updates st) = store_writes st
       \<and> emitted (updateJob jobId updates st) = emitted st"
  using assms by (simp add: updateJob_def find_None_ids)

theorem updateJob_unknown_id_witness:
  "updateJob 7 fail_update live_job_state = live_job_state
   \<and> store_writes (updateJob 7 fail_update live_job_state) = store_writes live_job_state
   \<and> emitted (updateJob 7 fail_update live_job_state) = emitted live_job_state"
proof -
  have h: "\<forall>j\<in>set (jobs live_job_state). job_id j \<noteq> 7" by code_simp
  from updateJob_unknown_id [OF h, of fail_update] show ?thesis by blast
qed

lemma createJob_demo:
  "createJob nm ws wfId rId False t0 st =
     (nextJobId st + 1,
      addJob \<lparr>job_id = nextJobId st + 1, name = nm, status = Running,
              workspaceId = null_if_falsy ws, workflowId = null_if_falsy wfId,
              runId = null_if_falsy rId, isLive = False, startedAt = t0, completedAt = None,
              docId = None, statusText = ''Starting...''\<rparr>
        (st\<lparr>nextJobId := nextJobId st + 1\<rparr>)
       \<lparr>timeouts := timeouts st @ [(8000, nextJobId st + 1)]\<rparr>)"
  by (simp add: createJob_def Let_def addJob_def saveJobs_def emit_def)

lemma addJob_frame [simp]:
  "network (addJob j st) = network st"
  "pollers (addJob j st) = pollers st"
  "timeouts (addJob j st) = timeouts st"
  "api (addJob j st) = api st"
  by (simp_all add: addJob_def saveJobs_def Let_def)

lemma completions_addJob [simp]: "completions jid (addJob j st) = completions jid st"
  by (simp add: addJob_def saveJobs_def emit_def completions_def Let_def)

lemma job_of_addJob: "job_id j = n \<Longrightarrow> job_of n (addJob j st) = Some j"
  by (simp add: addJob_def saveJobs_def Let_def job_of_def)

lemma status_of_addJob: "job_id j = n \<Longrightarrow> status_of n (addJob j st) = Some (status j)"
  by (simp add: status_of_def job_of_addJob)

lemma frame_nextJobId [simp]:
  "completions jid (st\<lparr>nextJobId := n\<rparr>) = completions jid st"
  by (simp add: completions_def)

lemma reloads_addJob [simp]: "reloads (addJob j st) = reloads st"
  by (simp add: reloads_def)

text \<open>What the reload sends for a job of the list, and what a completion sends.\<close>

lemma network_reload:
  assumes "job_of n st = Some j"
  shows "network (reload n env st) = network st @ reload_requests (workspaceId j) env"
  using assms
  by (auto simp add: reload_def reload_requests_def job_of_def setDocuments_def
        setCollectionMembers_def emit_def Let_def split: outcome.splits)

lemma workspaceId_assign [simp]: "workspaceId (assign u j) = workspaceId j"
  by (simp add: assign_def)

lemma network_completeJob:
  assumes "job_of n st = Some j"
  shows "network (completeJob n now env st) =
           network st @ (if api st then reload_requests (workspaceId j) env else [])"
proof -
  let ?u = "\<lparr>set_status = Some Completed, set_completedAt = Some now,
             set_statusText = Some ''Complete''\<rparr>"
  from assms have "job_of n (updateJob n ?u st) = Some (assign ?u j)"
    by (simp add: job_of_updateJob)
  from network_reload [OF this, of env] show ?thesis
    by (simp add: completeJob_def Let_def)
qed

lemma reload_requests_null_if_falsy [simp]:
  "reload_requests (null_if_falsy ws) env = reload_requests ws env"
  by (cases ws) (simp_all add: reload_requests_def null_if_falsy_def)

text \<open>
  C8, as the code has it. \<open>createJob\<close> with \<open>isLive = false\<close> sets one timer of 8000 ms
  for the new job, sends nothing and starts no poller; the job is \<open>running\<close>. When the
  timer fires the job is \<open>completed\<close> and \<open>research:completed\<close> is emitted once.
  \<open>completeJob\<close> reloads whenever \<open>state.api\<close> is set, whatever the job's \<open>isLive\<close>:
  through the job's lifecycle nothing is sent when \<open>state.api\<close> is unset, and when it is
  set exactly the requests of the reload are sent, that is \<open>loadAllObjects\<close> and, when
  that succeeds and the job has a workspace, the request for the workspace's members.
\<close>

theorem demo_job_lifecycle:
  "(let created = createJob nm ws wfId rId False t0 st;
        n = fst created; st1 = snd created;
        st2 = step env (t1, TimeoutFires n) st1
    in timeouts st1 = timeouts st @ [(8000, n)]
       \<and> network st1 = network st
       \<and> pollers st1 = pollers st
       \<and> status_of n st1 = Some Running
       \<and> status_of n st2 = Some Completed
       \<and> completions n st2 = completions n st + 1
       \<and> (if api st then reloads st2 = reloads st + 1 else network st2 = network st)
       \<and> network st2 = network st @ (if api st then reload_requests ws env else []))"
proof -
  let ?j = "\<lparr>job_id = nextJobId st + 1, name = nm, status = Running,
              workspaceId = null_if_falsy ws, workflowId = null_if_falsy wfId,
              runId = null_if_falsy rId, isLive = False, startedAt = t0, completedAt = None,
              docId = None, statusText = ''Starting...''\<rparr>"
  let ?st0 = "addJob ?j (st\<lparr>nextJobId := nextJobId st + 1\<rparr>)"
  have j: "job_of (nextJobId st + 1) (?st0\<lparr>timeouts := ts\<rparr>) = Some ?j" for ts
    by (simp add: job_of_addJob)
  have n: "network (completeJob (nextJobId st + 1) t1 env (?st0\<lparr>timeouts := ts\<rparr>))
             = network st @ (if api st then reload_requests ws env else [])" for ts
    using network_completeJob [OF j, of t1 env ts] by simp
  show ?thesis
    using n
    by (simp add: createJob_demo Let_def timeout_fires_def status_of_completeJob_same
          reloads_completeJob status_of_addJob job_of_addJob)
qed

theorem demo_job_lifecycle_witness:
  "\<not> api initial_state
   \<and> fst (createJob ''Valuation Analysis'' None None None False 0 initial_state) = 1
   \<and> timeouts (snd (createJob ''Valuation Analysis'' None None None False 0 initial_state))
        = [(8000, 1)]
   \<and> status_of 1 (step example_remote (8000, TimeoutFires 1)
        (snd (createJob ''Valuation Analysis'' None None None False 0 initial_state)))
        = Some Completed
   \<and> network (step example_remote (8000, TimeoutFires 1)
        (snd (createJob ''Valuation Analysis'' None None None False 0 initial_state))) = []
   \<and> api offline_with_client
   \<and> network (step example_remote (8000, TimeoutFires 1) demo_job_in_workspace)
        = [LoadAllObjects, GetCollectionMembers ''w1'']
   \<and> network (step failing_remote (8000, TimeoutFires 1) demo_job_in_workspace)
        = [LoadAllObjects]"
proof -
  have h: "\<not> api initial_state" "network initial_state = []" "timeouts initial_state = []"
    "fst (createJob ''Valuation Analysis'' None None None False 0 initial_state) = 1"
    by code_simp+
  have k: "api offline_with_client" "network offline_with_client = []"
    "fst (createJob ''Valuation Analysis'' (Some ''w1'') None None False 0 offline_with_client) = 1"
    "reload_requests (Some ''w1'') example_remote = [LoadAllObjects, GetCollectionMembers ''w1'']"
    "reload_requests (Some ''w1'') failing_remote = [LoadAllObjects]"
    by code_simp+
  from demo_job_lifecycle
         [of "''Valuation Analysis''" None None None 0 initial_state example_remote 8000] h
  have a: "timeouts (snd (createJob ''Valuation Analysis'' None None None False 0 initial_state))
             = [(8000, 1)]
     \<and> status_of 1 (step example_remote (8000, TimeoutFires 1)
          (snd (createJob ''Valuation Analysis'' None None None False 0 initial_state)))
          = Some Completed
     \<and> network (step example_remote (8000, TimeoutFires 1)
          (snd (createJob ''Valuation Analysis'' None None None False 0 initial_state))) = []"
    by (simp add: Let_def)
  from demo_job_lifecycle
         [of "''Valuation Analysis''" "Some ''w1''" None None 0 offline_with_client
             example_remote 8000] k
  have b: "network (step example_remote (8000, TimeoutFires 1) demo_job_in_workspace)
             = [LoadAllObjects, GetCollectionMembers ''w1'']"
    by (simp add: Let_def demo_job_in_workspace_def)
  from demo_job_lifecycle
         [of "''Valuation Analysis''" "Some ''w1''" None None 0 offline_with_client
             failing_remote 8000] k
  have c: "network (step failing_remote (8000, TimeoutFires 1) demo_job_in_workspace)
             = [LoadAllObjects]"
    by (simp add: Let_def demo_job_in_workspace_def)
  from h(1,4) k(1) a b c show ?thesis by simp
qed

text \<open>
  C8 as stated fails: with an API client configured and live mode off, a demo job's
  completion sends a \<open>loadAllObjects\<close> request.
\<close>

theorem demo_job_reload:
  "network (step example_remote (8000, TimeoutFires 1)
     (snd (createJob ''Valuation Analysis'' None None None False 0 offline_with_client)))
   = [LoadAllObjects]"
  by code_simp

section \<open>Claims about the conversation histories\<close>

text \<open>
  C5. Starting from the empty registry, after any sequence of \<open>addMessage\<close> calls the
  history of every context key has at most 20 entries, and it is exactly the 20 most
  recent messages sent to that key (all of them when there are fewer), in the order they
  were sent.
\<close>

theorem history_bounded_fifo:
  "length (getHistory (addMessages calls Map.empty) k) \<le> 20
   \<and> getHistory (addMessages calls Map.empty) k = most_recent 20 (sent_to k calls)"
proof -
  have e: "getHistory Map.empty k = []" by (simp add: getHistory_def)
  have "getHistory (addMessages calls Map.empty) k = most_recent 20 (sent_to k calls)"
    using getHistory_addMessages [of calls Map.empty k] e
    by (simp add: most_recent_def)
  then show ?thesis by (simp add: length_most_recent)
qed

theorem history_bounded_fifo_witness:
  "length (getHistory (addMessages burst Map.empty) ''doc:d1'') = 20
   \<and> map time (getHistory (addMessages burst Map.empty) ''doc:d1'') = map int [2..<22]
   \<and> getHistory (addMessages burst Map.empty) ''ws:w1'' = []"
proof -
  have a: "map time (most_recent 20 (sent_to ''doc:d1'' burst)) = map int [2..<22]"
    by code_simp
  have b: "most_recent 20 (sent_to ''ws:w1'' burst) = []" by code_simp
  from history_bounded_fifo [of burst "''doc:d1''"] history_bounded_fifo [of burst "''ws:w1''"]
    a b
  have "map time (getHistory (addMessages burst Map.empty) ''doc:d1'') = map int [2..<22]"
    and "getHistory (addMessages burst Map.empty) ''ws:w1'' = []"
    by simp_all
  moreover from this(1)
  have "length (getHistory (addMessages burst Map.empty) ''doc:d1'') = length (map int [2..<22])"
    by (metis length_map)
  ultimately show ?thesis by simp
qed

section \<open>Properties of the stream decoder\<close>

lemma split_from_nonempty [simp]: "split_from cur s \<noteq> []"
  by (induction s arbitrary: cur) auto

lemma split_from_no_newline:
  "newline \<notin> set b \<Longrightarrow> split_from cur (b @ s) = split_from (cur @ b) s"
  by (induction b arbitrary: cur) auto

lemma last_split_from_no_newline:
  "newline \<notin> set cur \<Longrightarrow> newline \<notin> set (last (split_from cur s))"
  by (induction s arbitrary: cur) auto

lemma butlast_split_from_append:
  "butlast (split_from cur (x @ y)) =
     butlast (split_from cur x) @ butlast (split_from (last (split_from cur x)) y)"
  by (induction x arbitrary: cur) auto

text \<open>
  The loop invariant: with a carry-over buffer free of line feeds, the loop hands over
  the lines of buffer and chunks taken as one text, whatever the chunk boundaries.
\<close>

lemma read_loop_lines:
  "newline \<notin> set buffer \<Longrightarrow>
     read_loop parse buffer chunks =
       concat (map (on_line parse) (butlast (split_from buffer (concat chunks))))"
proof (induction chunks arbitrary: buffer)
  case Nil
  then show ?case by simp
next
  case (Cons chunk chunks)
  let ?rest = "last (split_from buffer chunk)"
  have b: "split_nl (buffer @ chunk) = split_from buffer chunk"
    using Cons.prems split_from_no_newline [of buffer "[]" chunk] by (simp add: split_nl_def)
  have n: "newline \<notin> set ?rest"
    using Cons.prems by (rule last_split_from_no_newline)
  show ?case
    using Cons.IH [OF n] butlast_split_from_append [of buffer chunk "concat chunks"]
    by (simp add: b Let_def)
qed

lemma on_line_payload:
  "concat (map (on_line parse) ls) = map (the \<circ> payload parse) (filter (well_formed parse) ls)"
  by (induction ls) (auto simp add: on_line_def payload_def well_formed_def split: option.splits)

section \<open>Claims about the API client\<close>

text \<open>
  C2. A line is a segment of the text ended by a line feed; it is well formed when it
  starts with \<open>data:\<close> and the rest, trimmed, parses. For every sequence of chunks, the
  events handed to \<open>onEvent\<close> are the parsed payloads of the well-formed lines of the
  concatenation, in order: as many calls as there are such lines, wherever the chunk
  boundaries fall and whatever malformed lines stand between them. When the body ends,
  the call returns normally with exactly these events.
\<close>

theorem stream_delivers_each_well_formed_line:
  "read_loop parse [] chunks =
       map (the \<circ> payload parse) (filter (well_formed parse) (complete_lines (concat chunks)))
   \<and> length (read_loop parse [] chunks) =
       length (filter (well_formed parse) (complete_lines (concat chunks)))
   \<and> streamResponse parse wfId rId now auth later (Response True chunks Done) a =
       (case getAuthToken now auth later a of
          (Throws e, a1, sent) \<Rightarrow> (Throws e, [], a1, sent)
        | (Returns tok, a1, sent) \<Rightarrow>
            (Returns (),
             map (the \<circ> payload parse) (filter (well_formed parse) (complete_lines (concat chunks))),
             a1, sent @ [OpenStream wfId rId]))"
proof -
  have r: "read_loop parse [] chunks =
       map (the \<circ> payload parse) (filter (well_formed parse) (complete_lines (concat chunks)))"
    using read_loop_lines [of "[]" parse chunks]
    by (simp add: on_line_payload complete_lines_def split_nl_def)
  show ?thesis
    by (simp add: r streamResponse_def split: prod.splits outcome.splits)
qed

theorem stream_delivers_each_well_formed_line_witness:
  "fst (snd (streamResponse digits_only ''wf'' ''run'' 0 (granted ''t1'') 5
              (Response True sample_chunks Done) fresh_api)) = [''1'', ''2'']
   \<and> filter (well_formed digits_only) (complete_lines (concat sample_chunks))
        = [''data: 1'', ''data:2'']
   \<and> length (complete_lines (concat sample_chunks)) = 5"
proof -
  have h: "getAuthToken 0 (granted ''t1'') 5 fresh_api
             = (Returns (Some ''t1''), fresh_api\<lparr>jwt := Some ''t1'', jwtExpiry := 3500005\<rparr>,
                [AuthExchange])"
    by code_simp
  have l: "filter (well_formed digits_only) (complete_lines (concat sample_chunks))
             = [''data: 1'', ''data:2'']"
    by code_simp
  have p: "the (payload digits_only ''data: 1'') = ''1''"
    "the (payload digits_only ''data:2'') = ''2''"
    by code_simp+
  have n: "length (complete_lines (concat sample_chunks)) = 5" by code_simp
  from stream_delivers_each_well_formed_line
         [of digits_only sample_chunks "''wf''" "''run''" 0 "granted ''t1''" 5 fresh_api]
  show ?thesis by (simp add: h l p n)
qed

text \<open>
  C9. When a token was obtained and the stream endpoint answers with a response that is
  not \<open>ok\<close>, \<open>streamResponse\<close> returns normally and \<open>onEvent\<close> is never called, whatever
  the body of that response holds.
\<close>

theorem stream_not_ok:
  assumes "fst (getAuthToken now auth later a) = Returns tok"
  shows "fst (streamResponse parse wfId rId now auth later (Response False chunks ending) a) = Returns ()
       \<and> fst (snd (streamResponse parse wfId rId now auth later (Response False chunks ending) a)) = []"
  using assms
  by (cases "getAuthToken now auth later a") (auto simp add: streamResponse_def split: outcome.splits)

theorem stream_not_ok_witness:
  "fst (getAuthToken 0 (granted ''t1'') 5 fresh_api) = Returns (Some ''t1'')
   \<and> fst (streamResponse digits_only ''wf'' ''run'' 0 (granted ''t1'') 5
            (Response False [''data: 1'', [newline]] Done) fresh_api) = Returns ()
   \<and> fst (snd (streamResponse digits_only ''wf'' ''run'' 0 (granted ''t1'') 5
            (Response False [''data: 1'', [newline]] Done) fresh_api)) = []"
proof -
  have h: "fst (getAuthToken 0 (granted ''t1'') 5 fresh_api) = Returns (Some ''t1'')"
    by code_simp
  from stream_not_ok [OF h, of digits_only "''wf''" "''run''" "[''data: 1'', [newline]]" Done] h
  show ?thesis by blast
qed



section \<open>Properties of the answer extraction\<close>

lemma marker_at_Nil [simp]: "marker_at [] = None"
  by (simp add: marker_at_def)

lemma find_marker_skip: "no_marker_within pre x \<Longrightarrow> find_marker (pre @ x) = find_marker x"
  by (induction pre) auto

lemma find_marker_here: "marker_at x = Some r \<Longrightarrow> find_marker x = Some r"
  by (cases x) auto

lemma find_marker_absent: "no_marker_within s [] \<Longrightarrow> find_marker s = None"
  using find_marker_skip [of s "[]"] by simp

lemma section_ahead_Nil [simp]: "\<not> section_ahead []"
  by (simp add: section_ahead_def)

lemma capture_body:
  "no_section_within body rest \<Longrightarrow> rest = [] \<or> section_ahead rest \<Longrightarrow> capture (body @ rest) = body"
proof (induction body)
  case Nil
  then show ?case by (cases rest) auto
next
  case (Cons c cs)
  then show ?case by simp
qed

lemma no_section_dropWhile:
  "no_section_within body rest \<Longrightarrow> no_section_within (dropWhile P body) rest"
  by (induction body) auto

lemma is_space_lower: "is_space c \<Longrightarrow> lower_char c = c"
  by (auto simp add: is_space_def lower_char_def Let_def)

lemma section_ahead_not_space: "section_ahead (c # cs) \<Longrightarrow> \<not> is_space c"
proof
  assume s: "section_ahead (c # cs)" and sp: "is_space c"
  from s have "lower_char c = lower_char CHR ''*''"
    by (auto simp add: section_ahead_def split: option.splits if_splits)
  moreover have "lower_char CHR ''*'' = CHR ''*''" by (simp add: lower_char_def)
  ultimately have "c = CHR ''*''" using is_space_lower [OF sp] by simp
  with sp show False by (simp add: is_space_def)
qed

lemma dropWhile_space_append:
  "rest = [] \<or> section_ahead rest \<Longrightarrow>
     dropWhile is_space (body @ rest) = dropWhile is_space body @ rest"
proof (induction body)
  case Nil
  then show ?case by (cases rest) (auto dest: section_ahead_not_space)
next
  case (Cons c cs)
  then show ?case by simp
qed

lemma js_trim_dropWhile: "js_trim (dropWhile is_space s) = js_trim s"
  by (simp add: js_trim_def)

section \<open>Properties of the chat turns\<close>

lemma responses_frame [simp]:
  "responses k (chat_emit e cs) =
     responses k cs + (case e of ChatResponse k' a \<Rightarrow> if k' = k then 1 else 0 | _ \<Rightarrow> 0)"
  "responses k (chat_send c cs) = responses k cs"
  "responses k (cs\<lparr>activeStream := s\<rparr>) = responses k cs"
  "responses k (cs\<lparr>histories := h\<rparr>) = responses k cs"
  "responses k (cs\<lparr>chat_timers := ts\<rparr>) = responses k cs"
  by (simp_all add: responses_def chat_emit_def chat_send_def split: bus_event.splits)

lemma errors_frame [simp]:
  "errors k (chat_emit e cs) =
     errors k cs + (case e of ChatError k' a \<Rightarrow> if k' = k then 1 else 0 | _ \<Rightarrow> 0)"
  "errors k (chat_send c cs) = errors k cs"
  "errors k (cs\<lparr>activeStream := s\<rparr>) = errors k cs"
  "errors k (cs\<lparr>histories := h\<rparr>) = errors k cs"
  "errors k (cs\<lparr>chat_timers := ts\<rparr>) = errors k cs"
  by (simp_all add: errors_def chat_emit_def chat_send_def split: bus_event.splits)

lemma chat_flags_frame [simp]:
  "chat_liveMode (chat_emit e cs) = chat_liveMode cs"
  "chat_api (chat_emit e cs) = chat_api cs"
  "activeStream (chat_emit e cs) = activeStream cs"
  "activeStream (chat_send c cs) = activeStream cs"
  "histories (chat_emit e cs) = histories cs"
  "histories (chat_send c cs) = histories cs"
  by (simp_all add: chat_emit_def chat_send_def)

lemma answer_turn_counts [simp]:
  "responses k (answer_turn k a now cs) = responses k cs + 1"
  "errors k (answer_turn k a now cs) = errors k cs"
  "activeStream (answer_turn k a now cs) = activeStream cs"
  by (simp_all add: answer_turn_def)

lemma doc_streaming:
  "Cancel \<notin> set items \<Longrightarrow>
     responses k cs \<le> responses k (while_streaming (on_doc_event k) items cs)
     \<and> errors k (while_streaming (on_doc_event k) items cs) = errors k cs
     \<and> (activeStream (while_streaming (on_doc_event k) items cs) = None
          \<longrightarrow> activeStream cs = None \<or> responses k cs < responses k (while_streaming (on_doc_event k) items cs))"
proof (induction items arbitrary: cs)
  case Nil
  show ?case by simp
next
  case (Cons item items)
  then obtain now data where item: "item = Delivered now data" by (cases item) auto
  from Cons.prems have "Cancel \<notin> set items" by simp
  from Cons.IH [OF this, of "on_doc_event k now data cs"]
  show ?case
    by (auto simp add: item on_doc_event_def)
qed

text \<open>
  The document turn: unless it is cancelled while streaming, a live turn emits at least
  one response or error for its context.
\<close>

lemma doc_after_stream_counts:
  "responses k (doc_after_stream k wfId rId env cs) + errors k (doc_after_stream k wfId rId env cs)
     = responses k cs + errors k cs + (if activeStream cs \<noteq> None then 1 else 0)"
  by (simp add: doc_after_stream_def Let_def split: outcome.splits)

lemma doc_turn_never_silent:
  assumes "chat_liveMode cs" "chat_api cs" "Cancel \<notin> set (stream_items env)"
  shows "responses (''doc:'' @ d) cs + errors (''doc:'' @ d) cs
           < responses (''doc:'' @ d) (sendDocChat d title q now env cs)
             + errors (''doc:'' @ d) (sendDocChat d title q now env cs)"
proof (cases "exec_reply env")
  case (Throws e)
  with assms(1,2) show ?thesis by (simp add: sendDocChat_def Let_def)
next
  case (Returns h)
  obtain rId wfId where h: "h = (rId, wfId)" by (cases h) auto
  define k where "k = ''doc:'' @ d"
  define cs4 where "cs4 = chat_send (OpenStream wfId rId)
                  ((chat_send (ExecuteResearch (doc_task d title
                       (getHistory (addMessage k User q now (histories cs)) k) q))
                     (chat_emit (ChatThinking k)
                       (chat_emit (ChatUserMessage k q)
                          (cs\<lparr>histories := addMessage k User q now (histories cs)\<rparr>))))
                   \<lparr>activeStream := Some (wfId, rId)\<rparr>)"
  define cs5 where "cs5 = while_streaming (on_doc_event k) (stream_items env) cs4"
  have base: "responses k cs4 = responses k cs" "errors k cs4 = errors k cs"
    "activeStream cs4 \<noteq> None"
    by (simp_all add: cs4_def)
  from doc_streaming [OF assms(3), of k cs4] base
  have s: "responses k cs \<le> responses k cs5" "errors k cs5 = errors k cs"
    "activeStream cs5 = None \<Longrightarrow> responses k cs < responses k cs5"
    by (auto simp add: cs5_def)
  show ?thesis
  proof (cases "stream_end env")
    case (Throws e)
    have "sendDocChat d title q now env cs = (chat_emit (ChatError k e) cs5)\<lparr>activeStream := None\<rparr>"
      using assms(1,2) \<open>exec_reply env = Returns h\<close> h Throws
      by (simp add: sendDocChat_def Let_def cs5_def cs4_def k_def)
    with s show ?thesis unfolding k_def [symmetric] by simp
  next
    case (Returns u)
    have "sendDocChat d title q now env cs = doc_after_stream k wfId rId env cs5"
      using assms(1,2) \<open>exec_reply env = Returns h\<close> h Returns
      by (simp add: sendDocChat_def Let_def cs5_def cs4_def k_def)
    with s doc_after_stream_counts [of k wfId rId env cs5]
    show ?thesis unfolding k_def [symmetric] by (cases "activeStream cs5 = None") simp_all
  qed
qed


text \<open>
  The workspace turn: when the execute request succeeds and the stream ends normally
  without an \<open>answer\<close> event that carries a message, a live turn emits neither a
  response nor an error.
\<close>

lemma cancel_counts [simp]:
  "responses k (cancelActiveStream cs) = responses k cs"
  "errors k (cancelActiveStream cs) = errors k cs"
  by (simp_all add: cancelActiveStream_def)

lemma on_ws_event_idle:
  "\<not> carries_answer (Delivered now data) \<Longrightarrow> on_ws_event k now data cs = cs"
  by (auto simp add: on_ws_event_def)

lemma ws_streaming:
  "\<not> list_ex carries_answer items \<Longrightarrow>
     responses k (while_streaming (on_ws_event k') items cs) = responses k cs
     \<and> errors k (while_streaming (on_ws_event k') items cs) = errors k cs"
proof (induction items arbitrary: cs)
  case Nil
  show ?case by simp
next
  case (Cons item items)
  show ?case
  proof (cases item)
    case (Delivered now data)
    with Cons.prems have "on_ws_event k' now data cs = cs" and "\<not> list_ex carries_answer items"
      by (simp_all add: on_ws_event_idle)
    with Cons.IH [of cs] Delivered show ?thesis by simp
  next
    case Cancel
    with Cons.prems Cons.IH [of "cancelActiveStream cs"] show ?thesis by simp
  qed
qed

lemma workspace_turn_without_answer:
  assumes "chat_liveMode cs" "chat_api cs" "exec_reply env = Returns h"
    "stream_end env = Returns ()" "\<not> list_ex carries_answer (stream_items env)"
  shows "responses k (sendWorkspaceChat w nm q docs now env cs) = responses k cs
       \<and> errors k (sendWorkspaceChat w nm q docs now env cs) = errors k cs"
proof -
  obtain rId wfId where h: "h = (rId, wfId)" by (cases h) auto
  show ?thesis
    using assms(1-4) h ws_streaming [OF assms(5)]
    by (simp add: sendWorkspaceChat_def Let_def)
qed

section \<open>Claims about the chat session\<close>

text \<open>
  C6, as the code has it. The marker is the bold one: two asterisks, \<open>3.\<close>, optional
  white space, \<open>Agent Answer:\<close> in any case, two asterisks; a numbered section marker
  is two asterisks, digits and a full stop. On the example of the specification the
  result is "The value is 42", and the plain text without markers comes back unchanged.
  For every input in which the bold marker matches nowhere, the input is returned
  unchanged. For every input in which it first matches after \<open>pre\<close>, and is followed by
  \<open>body\<close> and then by the end of the text or a numbered section marker, none starting
  inside \<open>body\<close>, the result is \<open>body\<close> trimmed.
\<close>

theorem extractAnswer_bold_marker:
  "extractAnswer bold_sections = ''The value is 42''
   \<and> extractAnswer ''plain text, no markers'' = ''plain text, no markers''
   \<and> (no_marker_within s [] \<longrightarrow> extractAnswer s = s)
   \<and> (no_marker_within pre x \<and> marker_at x = Some (body @ rest)
        \<and> no_section_within body rest \<and> (rest = [] \<or> section_ahead rest)
       \<longrightarrow> extractAnswer (pre @ x) = js_trim body)"
proof -
  have ex: "extractAnswer bold_sections = ''The value is 42''" by code_simp
  have ex2: "extractAnswer ''plain text, no markers'' = ''plain text, no markers''" by code_simp
  have absent: "extractAnswer s = s" if "no_marker_within s []"
    using find_marker_absent [OF that] by (simp add: extractAnswer_def)
  have present: "extractAnswer (pre @ x) = js_trim body"
    if a: "no_marker_within pre x" and b: "marker_at x = Some (body @ rest)"
      and c: "no_section_within body rest" and d: "rest = [] \<or> section_ahead rest"
  proof -
    have f: "find_marker (pre @ x) = Some (body @ rest)"
      using find_marker_skip [OF a] find_marker_here [OF b] by simp
    have "capture (dropWhile is_space (body @ rest)) = dropWhile is_space body"
      using dropWhile_space_append [OF d, of body]
        capture_body [OF no_section_dropWhile [OF c, of is_space] d]
      by simp
    with f show ?thesis by (simp add: extractAnswer_def js_trim_dropWhile)
  qed
  from ex ex2 absent present show ?thesis by blast
qed

theorem extractAnswer_bold_marker_witness:
  "no_marker_within ''plain text, no markers'' []
   \<and> extractAnswer ''plain text, no markers'' = ''plain text, no markers''
   \<and> no_marker_within ''... '' answer_section
   \<and> marker_at answer_section = Some ('' The value is 42 '' @ ''**4. Next:** ...'')
   \<and> no_section_within '' The value is 42 '' ''**4. Next:** ...''
   \<and> section_ahead ''**4. Next:** ...''
   \<and> extractAnswer (''... '' @ answer_section) = js_trim '' The value is 42 ''
   \<and> js_trim '' The value is 42 '' = ''The value is 42''"
proof -
  have h1: "no_marker_within ''plain text, no markers'' []" by code_simp
  have h2: "no_marker_within ''... '' answer_section" by code_simp
  have h3: "marker_at answer_section = Some ('' The value is 42 '' @ ''**4. Next:** ...'')"
    by code_simp
  have h4: "no_section_within '' The value is 42 '' ''**4. Next:** ...''" by code_simp
  have h5: "section_ahead ''**4. Next:** ...''" by code_simp
  have h6: "js_trim '' The value is 42 '' = ''The value is 42''" by code_simp
  from extractAnswer_bold_marker
         [of "''plain text, no markers''" "''... ''" answer_section "'' The value is 42 ''"
             "''**4. Next:** ...''"]
    h1 h2 h3 h4 h5 h6
  show ?thesis by blast
qed

text \<open>
  C6 as stated fails: a message that holds the marker \<open>3. Agent Answer:\<close> and a next
  numbered section, without the asterisks, is returned whole.
\<close>

theorem plain_marker_not_extracted:
  "includes_str plain_sections ''3. Agent Answer:''
   \<and> extractAnswer plain_sections = plain_sections
   \<and> extractAnswer plain_sections \<noteq> ''The value is 42''"
  by code_simp

text \<open>
  C3 on the code. A workspace turn on the live path whose execute request succeeds and
  whose stream ends normally without an \<open>answer\<close> event emits the user message and the
  thinking notice and nothing else: no response, no error. The document turn on the same
  input goes on to the status query and, finding no result, emits an error.
\<close>

theorem workspace_turn_silent:
  "chat_emitted (sendWorkspaceChat ''w1'' ''Chips'' ''What changed?'' [(''Report'', ''d1'')] 0
                   progress_only live_chat)
     = [ChatUserMessage ''ws:w1'' ''What changed?'', ChatThinking ''ws:w1'']
   \<and> responses ''ws:w1'' (sendWorkspaceChat ''w1'' ''Chips'' ''What changed?'' [(''Report'', ''d1'')] 0
                   progress_only live_chat) = 0
   \<and> errors ''ws:w1'' (sendWorkspaceChat ''w1'' ''Chips'' ''What changed?'' [(''Report'', ''d1'')] 0
                   progress_only live_chat) = 0
   \<and> chat_emitted (sendDocChat ''d1'' ''Report'' ''What changed?'' 0 progress_only live_chat)
     = [ChatUserMessage ''doc:d1'' ''What changed?'', ChatThinking ''doc:d1'',
        ChatError ''doc:d1'' ''No response received'']"
  by code_simp

theorem workspace_turn_silent_witness:
  "chat_liveMode live_chat \<and> chat_api live_chat
   \<and> exec_reply progress_only = Returns (''run-1'', ''wf-1'')
   \<and> stream_end progress_only = Returns ()
   \<and> responses ''ws:w1'' (sendWorkspaceChat ''w1'' ''Chips'' ''What changed?'' [(''Report'', ''d1'')] 0
                   progress_only live_chat)
       + errors ''ws:w1'' (sendWorkspaceChat ''w1'' ''Chips'' ''What changed?'' [(''Report'', ''d1'')] 0
                   progress_only live_chat) = 0"
proof -
  have h: "chat_liveMode live_chat \<and> chat_api live_chat
           \<and> exec_reply progress_only = Returns (''run-1'', ''wf-1'')
           \<and> stream_end progress_only = Returns ()"
    by code_simp
  from workspace_turn_silent h show ?thesis by simp
qed

end
